theory Spec2Isabelle
  imports Main
begin

section \<open>Documents\<close>

text \<open>
  The migrator works on what \<^verbatim>\<open>yaml.safe_load\<close> returns: scalars, sequences and
  mappings. A mapping is a Python \<^verbatim>\<open>dict\<close>: insertion ordered, keyed by hashable
  scalars. It is modelled as an association list in insertion order; a Python dict
  never holds a key twice, which is the well-formedness condition \<open>distinct (map fst kvs)\<close>
  where a statement needs it (Python also takes \<^verbatim>\<open>True\<close> and \<^verbatim>\<open>1\<close> for one key; the
  statements hold for every list of distinct keys). Strings are lists of characters; floats, timestamps and
  binary scalars are left out (in every operation below they would behave as \<open>SInt\<close>
  does: neither string, list nor mapping). The document is a tree: no node is shared
  through a YAML alias.
\<close>

datatype scalar = SNull | SBool bool | SInt int | SStr string

datatype yaml = YScalar scalar | YList "yaml list" | YDict "(scalar \<times> yaml) list"

abbreviation YStr :: "string \<Rightarrow> yaml" where
  "YStr s \<equiv> YScalar (SStr s)"

abbreviation YInt :: "int \<Rightarrow> yaml" where
  "YInt i \<equiv> YScalar (SInt i)"

abbreviation YNull :: yaml where
  "YNull \<equiv> YScalar SNull"

datatype error = TypeError | KeyError | OSError | UnicodeError | OtherError

text \<open>Exceptions are values: \<open>Inl e\<close> is a raise, \<open>bindE\<close> sequences two steps.\<close>

definition bindE :: "error + 'a \<Rightarrow> ('a \<Rightarrow> error + 'b) \<Rightarrow> error + 'b" where
  "bindE m f = (case m of Inl e \<Rightarrow> Inl e | Inr a \<Rightarrow> f a)"

subsection \<open>The Python operations the migrator uses\<close>

text \<open>\<^verbatim>\<open>d[k] = v\<close> on a dict: an existing key keeps its position, a new key goes last.\<close>

fun dict_set :: "(scalar \<times> yaml) list \<Rightarrow> scalar \<Rightarrow> yaml \<Rightarrow> (scalar \<times> yaml) list" where
  "dict_set [] k v = [(k, v)]"
| "dict_set ((k', v') # kvs) k v =
     (if k' = k then (k, v) # kvs else (k', v') # dict_set kvs k v)"

text \<open>\<^verbatim>\<open>sub in s\<close> on two strings: \<open>sub\<close> occurs in \<open>s\<close> as a contiguous run.\<close>

fun is_prefix :: "string \<Rightarrow> string \<Rightarrow> bool" where
  "is_prefix [] s = True"
| "is_prefix (c # cs) [] = False"
| "is_prefix (c # cs) (d # ds) = (c = d \<and> is_prefix cs ds)"

fun str_contains :: "string \<Rightarrow> string \<Rightarrow> bool" where
  "str_contains sub [] = (sub = [])"
| "str_contains sub (c # cs) = (is_prefix sub (c # cs) \<or> str_contains sub cs)"

text \<open>
  \<^verbatim>\<open>key in x\<close> for a string \<open>key\<close>: key membership on a dict, element membership on a
  list, substring test on a string; \<^verbatim>\<open>TypeError\<close> (argument is not iterable) on
  \<^verbatim>\<open>None\<close>, a bool or an int.
\<close>

fun py_in :: "string \<Rightarrow> yaml \<Rightarrow> error + bool" where
  "py_in key (YDict kvs) = Inr (SStr key \<in> set (map fst kvs))"
| "py_in key (YList xs) = Inr (YStr key \<in> set xs)"
| "py_in key (YScalar (SStr s)) = Inr (str_contains key s)"
| "py_in key (YScalar _) = Inl TypeError"

text \<open>
  \<^verbatim>\<open>x[key]\<close> for a string \<open>key\<close>: lookup on a dict (\<^verbatim>\<open>KeyError\<close> when absent);
  a list or a string takes integer indices only and every other value is not
  subscriptable: \<^verbatim>\<open>TypeError\<close>.
\<close>

fun py_getitem :: "yaml \<Rightarrow> string \<Rightarrow> error + yaml" where
  "py_getitem (YDict kvs) key =
     (case map_of kvs (SStr key) of None \<Rightarrow> Inl KeyError | Some v \<Rightarrow> Inr v)"
| "py_getitem _ key = Inl TypeError"

text \<open>\<^verbatim>\<open>x[key] = v\<close> for a string \<open>key\<close>.\<close>

fun py_setitem :: "yaml \<Rightarrow> string \<Rightarrow> yaml \<Rightarrow> error + yaml" where
  "py_setitem (YDict kvs) key v = Inr (YDict (dict_set kvs (SStr key) v))"
| "py_setitem _ key v = Inl TypeError"

text \<open>
  \<^verbatim>\<open>x in S\<close> for a set \<open>S\<close> of strings hashes \<open>x\<close> first: a list or a dict is
  unhashable (\<^verbatim>\<open>TypeError\<close>); a non-string scalar is hashable and equals no string.
\<close>

fun py_in_set :: "yaml \<Rightarrow> string set \<Rightarrow> error + bool" where
  "py_in_set (YScalar (SStr s)) S = Inr (s \<in> S)"
| "py_in_set (YScalar _) S = Inr False"
| "py_in_set _ S = Inl TypeError"

section \<open>The classifier and the restructurer\<close>

definition BUILTIN_GENERIC_TESTS :: "string set" where
  "BUILTIN_GENERIC_TESTS = {''unique'', ''not_null'', ''accepted_values'', ''relationships''}"

definition DBT_UTILS_TESTS :: "string set" where
  "DBT_UTILS_TESTS = {
     ''dbt_utils.equal_rowcount'', ''dbt_utils.fewer_rows_than'', ''dbt_utils.greater_rows_than'',
     ''dbt_utils.expression_is_true'', ''dbt_utils.recency'', ''dbt_utils.at_least_one'',
     ''dbt_utils.not_accepted_values'', ''dbt_utils.relationships_where'',
     ''dbt_utils.mutually_exclusive_ranges'', ''dbt_utils.sequential_values'',
     ''dbt_utils.unique_combination_of_columns'', ''dbt_utils.cardinality_equality'',
     ''dbt_utils.equality'', ''dbt_utils.not_null_proportion'', ''dbt_utils.not_constant'',
     ''dbt_utils.accepted_range'', ''dbt_utils.not_empty_string''}"

definition DBT_EXPECTATIONS_TESTS :: "string set" where
  "DBT_EXPECTATIONS_TESTS = {
     ''dbt_expectations.expect_column_values_to_be_unique'',
     ''dbt_expectations.expect_column_values_to_not_be_null'',
     ''dbt_expectations.expect_column_values_to_be_of_type'',
     ''dbt_expectations.expect_column_values_to_be_in_type_list'',
     ''dbt_expectations.expect_column_values_to_be_in_set'',
     ''dbt_expectations.expect_column_values_to_not_be_in_set'',
     ''dbt_expectations.expect_column_values_to_be_between'',
     ''dbt_expectations.expect_column_values_to_be_increasing'',
     ''dbt_expectations.expect_column_values_to_be_decreasing'',
     ''dbt_expectations.expect_column_value_lengths_to_be_between'',
     ''dbt_expectations.expect_column_value_lengths_to_equal'',
     ''dbt_expectations.expect_column_values_to_match_regex'',
     ''dbt_expectations.expect_column_values_to_not_match_regex'',
     ''dbt_expectations.expect_column_values_to_match_like_pattern'',
     ''dbt_expectations.expect_column_values_to_not_match_like_pattern'',
     ''dbt_expectations.expect_table_row_count_to_be_between'',
     ''dbt_expectations.expect_table_row_count_to_equal'',
     ''dbt_expectations.expect_table_column_count_to_be_between'',
     ''dbt_expectations.expect_table_column_count_to_equal'',
     ''dbt_expectations.expect_table_columns_to_match_ordered_list'',
     ''dbt_expectations.expect_table_columns_to_match_set'',
     ''dbt_expectations.expect_column_distinct_count_to_be_greater_than'',
     ''dbt_expectations.expect_column_distinct_count_to_equal'',
     ''dbt_expectations.expect_column_mean_to_be_between'',
     ''dbt_expectations.expect_column_median_to_be_between'',
     ''dbt_expectations.expect_column_quantile_values_to_be_between'',
     ''dbt_expectations.expect_column_stdev_to_be_between'',
     ''dbt_expectations.expect_column_sum_to_be_between'',
     ''dbt_expectations.expect_column_max_to_be_between'',
     ''dbt_expectations.expect_column_min_to_be_between''}"

definition ALL_GENERIC_TESTS :: "string set" where
  "ALL_GENERIC_TESTS = BUILTIN_GENERIC_TESTS \<union> DBT_UTILS_TESTS \<union> DBT_EXPECTATIONS_TESTS"

definition config_keys :: "string set" where
  "config_keys = {''config'', ''name'', ''description'', ''tags'', ''meta'', ''arguments''}"

text \<open>
  \<^verbatim>\<open>is_generic_test\<close>: the three tests of the source in their order. The argument is
  whatever stands in the name position of a declaration, a string or not.
\<close>

definition is_generic_test :: "yaml \<Rightarrow> error + bool" where
  "is_generic_test test_key =
     bindE (py_in_set test_key ALL_GENERIC_TESTS) (\<lambda>known.
       if known then Inr True
       else bindE (py_in ''.'' test_key) (\<lambda>dotted.
         if dotted then Inr True
         else bindE (py_in_set test_key config_keys) (\<lambda>structural. Inr (\<not> structural))))"

definition reserved_keys :: "string set" where
  "reserved_keys = {''config'', ''name'', ''description'', ''tags'', ''meta'', ''test_name''}"

text \<open>\<^verbatim>\<open>key in reserved_keys\<close> for a dict key: only a string can be a member.\<close>

fun is_reserved :: "scalar \<Rightarrow> bool" where
  "is_reserved (SStr s) = (s \<in> reserved_keys)"
| "is_reserved _ = False"

text \<open>The loop of \<^verbatim>\<open>needs_migration\<close>: true at the first key outside the reserved set.\<close>

fun any_unreserved :: "scalar list \<Rightarrow> bool" where
  "any_unreserved [] = False"
| "any_unreserved (key # keys) = (if \<not> is_reserved key then True else any_unreserved keys)"

fun needs_migration :: "yaml \<Rightarrow> bool" where
  "needs_migration (YDict kvs) =
     (if SStr ''arguments'' \<in> set (map fst kvs) then False
      else any_unreserved (map fst kvs))"
| "needs_migration _ = False"

text \<open>
  The loop of \<^verbatim>\<open>migrate_test_dict\<close> over \<^verbatim>\<open>test_dict.items()\<close>, carrying the two
  dicts it fills: \<open>new_dict\<close> and \<open>arguments\<close>.
\<close>

fun partition_items ::
  "(scalar \<times> yaml) list \<Rightarrow> (scalar \<times> yaml) list \<Rightarrow> (scalar \<times> yaml) list
     \<Rightarrow> (scalar \<times> yaml) list \<times> (scalar \<times> yaml) list" where
  "partition_items [] new_dict arguments = (new_dict, arguments)"
| "partition_items ((key, v) # items) new_dict arguments =
     (if is_reserved key then partition_items items (dict_set new_dict key v) arguments
      else partition_items items new_dict (dict_set arguments key v))"

fun migrate_test_dict :: "yaml \<Rightarrow> yaml" where
  "migrate_test_dict (YDict kvs) =
     (if \<not> needs_migration (YDict kvs) then YDict kvs
      else (case partition_items kvs [] [] of (new_dict, arguments) \<Rightarrow>
        if arguments \<noteq> [] then YDict (dict_set new_dict (SStr ''arguments'') (YDict arguments))
        else YDict new_dict))"
| "migrate_test_dict t = t"

section \<open>The check-list processor\<close>

fun is_dict :: "yaml \<Rightarrow> bool" where
  "is_dict (YDict kvs) = True"
| "is_dict _ = False"

text \<open>
  The body of the loop of \<^verbatim>\<open>process_test_list\<close>, for one entry: what is appended to
  \<open>migrated_tests\<close> and what to \<open>migrated_test_names\<close>. \<open>process_single\<close> is the branch
  \<^verbatim>\<open>len(test) == 1\<close> on the only item of the dict, \<open>process_keyed\<close> the branch of every
  other dict.
\<close>

definition process_single :: "scalar \<Rightarrow> yaml \<Rightarrow> error + (yaml \<times> yaml list)" where
  "process_single tname test_config =
     bindE (is_generic_test (YScalar tname)) (\<lambda>generic.
       if generic \<and> is_dict test_config then
         (if needs_migration test_config
          then Inr (YDict [(tname, migrate_test_dict test_config)], [YScalar tname])
          else Inr (YDict [(tname, test_config)], []))
       else Inr (YDict [(tname, test_config)], []))"

definition process_keyed :: "(scalar \<times> yaml) list \<Rightarrow> error + (yaml \<times> yaml list)" where
  "process_keyed kvs =
     (if SStr ''test_name'' \<in> set (map fst kvs) then
        bindE (py_getitem (YDict kvs) ''test_name'') (\<lambda>tname.
          bindE (is_generic_test tname) (\<lambda>generic.
            if generic then
              (if needs_migration (YDict kvs)
               then Inr (migrate_test_dict (YDict kvs), [tname])
               else Inr (YDict kvs, []))
            else Inr (YDict kvs, [])))
      else Inr (YDict kvs, []))"

fun process_test :: "yaml \<Rightarrow> error + (yaml \<times> yaml list)" where
  "process_test (YScalar (SStr s)) = Inr (YScalar (SStr s), [])"
| "process_test (YDict kvs) =
     (if length kvs = 1 then (case hd kvs of (tname, test_config) \<Rightarrow> process_single tname test_config)
      else process_keyed kvs)"
| "process_test t = Inr (t, [])"

text \<open>
  A \<^verbatim>\<open>for\<close> loop over a list whose body returns the entry it leaves in place and the
  names it records; an exception in one entry ends the loop and loses everything.
\<close>

fun for_each ::
  "(yaml \<Rightarrow> error + (yaml \<times> yaml list)) \<Rightarrow> yaml list \<Rightarrow> error + (yaml list \<times> yaml list)" where
  "for_each body [] = Inr ([], [])"
| "for_each body (x # xs) =
     bindE (body x) (\<lambda>(x', names).
       bindE (for_each body xs) (\<lambda>(xs', names'). Inr (x' # xs', names @ names')))"

definition process_test_list :: "yaml list \<Rightarrow> error + (yaml list \<times> yaml list)" where
  "process_test_list tests_list = for_each process_test tests_list"

section \<open>The document walker\<close>

text \<open>
  \<^verbatim>\<open>process_yaml_content\<close> mutates the loaded tree in place and extends one list of names.
  Each step below takes a node and returns the node as the step leaves it, with the
  names the step records; \<open>and_then\<close> runs two steps one after the other.
\<close>

definition and_then ::
  "(yaml \<Rightarrow> error + (yaml \<times> yaml list)) \<Rightarrow> (yaml \<Rightarrow> error + (yaml \<times> yaml list))
     \<Rightarrow> yaml \<Rightarrow> error + (yaml \<times> yaml list)" where
  "and_then f g x =
     bindE (f x) (\<lambda>(x1, names1). bindE (g x1) (\<lambda>(x2, names2). Inr (x2, names1 @ names2)))"

definition skip :: "yaml \<Rightarrow> error + (yaml \<times> yaml list)" where
  "skip x = Inr (x, [])"

text \<open>
  A node of a mapping that was mutated in place: the mapping holds the mutated node
  under the same key.
\<close>

fun put_field :: "yaml \<Rightarrow> string \<Rightarrow> yaml \<Rightarrow> yaml" where
  "put_field (YDict kvs) key v = YDict (dict_set kvs (SStr key) v)"
| "put_field x key v = x"

text \<open>
  \<^verbatim>\<open>for item in v\<close> with no check of what \<open>v\<close> is: a list gives its entries, a dict
  its keys, a string its characters (none of which the body can mutate), anything else
  is not iterable.
\<close>

fun iterate :: "(yaml \<Rightarrow> error + (yaml \<times> yaml list)) \<Rightarrow> yaml \<Rightarrow> error + (yaml \<times> yaml list)" where
  "iterate body (YList xs) =
     bindE (for_each body xs) (\<lambda>(xs', names). Inr (YList xs', names))"
| "iterate body (YDict kvs) =
     bindE (for_each body (map (\<lambda>(k, v). YScalar k) kvs)) (\<lambda>(ks', names). Inr (YDict kvs, names))"
| "iterate body (YScalar (SStr s)) =
     bindE (for_each body (map (\<lambda>c. YStr [c]) s)) (\<lambda>(cs', names). Inr (YStr s, names))"
| "iterate body (YScalar a) = Inl TypeError"

text \<open>
  \<^verbatim>\<open>if test_key in x and isinstance(x[test_key], list):\<close> with the three lines under
  it, for one \<open>test_key\<close>.
\<close>

definition migrate_tests_field :: "string \<Rightarrow> yaml \<Rightarrow> error + (yaml \<times> yaml list)" where
  "migrate_tests_field test_key x =
     bindE (py_in test_key x) (\<lambda>present.
       if \<not> present then Inr (x, [])
       else bindE (py_getitem x test_key) (\<lambda>v.
         case v of
           YList tests \<Rightarrow>
             bindE (process_test_list tests) (\<lambda>(migrated_tests, migrated_names).
               bindE (py_setitem x test_key (YList migrated_tests)) (\<lambda>x'.
                 Inr (x', migrated_names)))
         | _ \<Rightarrow> Inr (x, [])))"

text \<open>
  \<^verbatim>\<open>if 'tests' in x or 'data_tests' in x:\<close> and the loop over the two keys under it:
  the block the source repeats for a resource, a column, a table and a table's column.
\<close>

definition process_tests :: "yaml \<Rightarrow> error + (yaml \<times> yaml list)" where
  "process_tests x =
     bindE (py_in ''tests'' x) (\<lambda>a.
       bindE (if a then Inr True else py_in ''data_tests'' x) (\<lambda>b.
         if b then and_then (migrate_tests_field ''tests'') (migrate_tests_field ''data_tests'') x
         else Inr (x, [])))"

text \<open>
  \<^verbatim>\<open>if 'columns' in x and isinstance(x['columns'], list):\<close> with the loop over the
  columns, for a resource or a table.
\<close>

definition process_columns :: "yaml \<Rightarrow> error + (yaml \<times> yaml list)" where
  "process_columns x =
     bindE (py_in ''columns'' x) (\<lambda>present.
       if \<not> present then Inr (x, [])
       else bindE (py_getitem x ''columns'') (\<lambda>v.
         case v of
           YList columns \<Rightarrow>
             bindE (for_each process_tests columns) (\<lambda>(columns', names).
               Inr (put_field x ''columns'' (YList columns'), names))
         | _ \<Rightarrow> Inr (x, [])))"

definition process_table :: "yaml \<Rightarrow> error + (yaml \<times> yaml list)" where
  "process_table = and_then process_tests process_columns"

text \<open>\<^verbatim>\<open>if resource_type == 'sources' and 'tables' in resource:\<close> with its loop.\<close>

definition process_tables :: "string \<Rightarrow> yaml \<Rightarrow> error + (yaml \<times> yaml list)" where
  "process_tables resource_type resource =
     (if resource_type = ''sources'' then
        bindE (py_in ''tables'' resource) (\<lambda>present.
          if \<not> present then Inr (resource, [])
          else bindE (py_getitem resource ''tables'') (\<lambda>v.
            bindE (iterate process_table v) (\<lambda>(v', names).
              Inr (put_field resource ''tables'' v', names))))
      else Inr (resource, []))"

definition process_resource :: "string \<Rightarrow> yaml \<Rightarrow> error + (yaml \<times> yaml list)" where
  "process_resource resource_type =
     and_then process_tests (and_then process_columns (process_tables resource_type))"

text \<open>The body of \<^verbatim>\<open>for resource_type in [...]\<close>.\<close>

definition process_resource_type :: "string \<Rightarrow> yaml \<Rightarrow> error + (yaml \<times> yaml list)" where
  "process_resource_type resource_type content =
     bindE (py_in resource_type content) (\<lambda>present.
       if \<not> present then Inr (content, [])
       else bindE (py_getitem content resource_type) (\<lambda>v.
         bindE (iterate (process_resource resource_type) v) (\<lambda>(v', names).
           Inr (put_field content resource_type v', names))))"

definition process_yaml_content :: "yaml \<Rightarrow> error + (yaml \<times> yaml list)" where
  "process_yaml_content =
     and_then (process_resource_type ''models'')
       (and_then (process_resource_type ''sources'')
         (and_then (process_resource_type ''seeds'') (process_resource_type ''snapshots'')))"

section \<open>Files, the report and the run\<close>

text \<open>
  The parser and the serializer are not part of the repository: \<open>safe_load\<close> and \<open>dump\<close>
  are parameters. \<^verbatim>\<open>yaml.safe_load\<close> returns a document, raises \<^verbatim>\<open>yaml.YAMLError\<close>, or
  raises something else; \<^verbatim>\<open>yaml.dump\<close> returns text or raises. \<open>join_names\<close> is
  \<^verbatim>\<open>", ".join(set(migrated_tests))\<close>, whose order is the iteration order of a Python set.
\<close>

datatype load_result = Loaded yaml | YAMLError | LoadRaises error

record yaml_lib =
  safe_load :: "string \<Rightarrow> load_result"
  dump :: "yaml \<Rightarrow> error + string"
  join_names :: "yaml list \<Rightarrow> string"

record TestMigration =
  file_path :: string
  test_name :: string
  arguments_moved :: "yaml list"
  line_number :: "nat option"

record GenericTestMigrator =
  models_dir :: string
  dry_run :: bool
  migrations_performed :: "TestMigration list"

text \<open>What \<^verbatim>\<open>print\<close> is called with, one value per call.\<close>

datatype message =
    CouldNotParse string
  | ErrorProcessing string error
  | Migrated bool nat string
  | NoYamlFilesFound string
  | FoundFiles nat
  | ModeLine bool
  | Blank
  | MigrationComplete
  | FilesProcessed nat
  | FilesMigrated nat
  | TotalTestMigrations nat
  | MigrationsPerformed
  | MigrationLine string string
  | ModelsDirNotFound string
  | RunFromProjectRoot

text \<open>
  The file system and the console. \<open>contents\<close> is what
  \<^verbatim>\<open>open(path, 'r', encoding='utf-8').read()\<close> gives: the text, or the exception it raises
  (no such file, a directory, no permission, bytes that are not UTF-8). \<open>writes\<close> is what
  \<^verbatim>\<open>open(path, 'w')\<close> followed by \<^verbatim>\<open>f.write(text)\<close> does: \<open>Written\<close>; \<open>OpenRaises\<close>, the
  file untouched; or \<open>WriteRaises\<close>, the file truncated by the \<^verbatim>\<open>open\<close> and holding what
  was written before the failure. \<open>path_exists\<close> is \<^verbatim>\<open>Path.exists\<close> and \<open>glob\<close> is
  \<^verbatim>\<open>Path.glob\<close> under a directory for one pattern. \<open>refuses\<close> says for which lines
  \<^verbatim>\<open>print\<close> raises (a closed pipe, a path the console encoding cannot write).
\<close>

datatype write_outcome = Written | OpenRaises error | WriteRaises error string

record world =
  contents :: "string \<Rightarrow> error + string"
  writes :: "string \<Rightarrow> string \<Rightarrow> write_outcome"
  path_exists :: "string \<Rightarrow> bool"
  glob :: "string \<Rightarrow> string \<Rightarrow> string list"
  console :: "message list"
  refuses :: "message \<Rightarrow> error option"

definition printed :: "message \<Rightarrow> world \<Rightarrow> world" where
  "printed m w = w\<lparr>console := console w @ [m]\<rparr>"

definition print :: "message \<Rightarrow> world \<Rightarrow> error + world" where
  "print m w = (case refuses w m of Some e \<Rightarrow> Inl e | None \<Rightarrow> Inr (printed m w))"

text \<open>A console on which every \<^verbatim>\<open>print\<close> succeeds.\<close>

definition console_accepts :: "world \<Rightarrow> bool" where
  "console_accepts w \<longleftrightarrow> (\<forall>m. refuses w m = None)"

text \<open>\<^verbatim>\<open>if not yaml_content\<close>: Python's truth value of a loaded document.\<close>

fun truthy :: "yaml \<Rightarrow> bool" where
  "truthy (YScalar SNull) = False"
| "truthy (YScalar (SBool b)) = b"
| "truthy (YScalar (SInt i)) = (i \<noteq> 0)"
| "truthy (YScalar (SStr s)) = (s \<noteq> [])"
| "truthy (YList xs) = (xs \<noteq> [])"
| "truthy (YDict kvs) = (kvs \<noteq> [])"

text \<open>
  A call that can raise after it has changed the migrator or the world returns what it
  returned or raised (\<open>Inl\<close>: the exception left the call), with the migrator and the
  world as they are at that moment.

  \<open>handle_exception\<close> is the handler \<^verbatim>\<open>except Exception as e\<close> that ends
  \<^verbatim>\<open>migrate_file\<close>: it prints and returns \<open>False\<close>; its \<^verbatim>\<open>print\<close> stands outside every
  \<^verbatim>\<open>try\<close>, so an exception of that \<^verbatim>\<open>print\<close> leaves \<^verbatim>\<open>migrate_file\<close>.
\<close>

definition handle_exception ::
  "string \<Rightarrow> error \<Rightarrow> GenericTestMigrator \<Rightarrow> world
     \<Rightarrow> (error + bool) \<times> GenericTestMigrator \<times> world" where
  "handle_exception path e self w =
     (case print (ErrorProcessing path e) w of
        Inl e' \<Rightarrow> (Inl e', self, w)
      | Inr w' \<Rightarrow> (Inr False, self, w'))"

text \<open>
  \<^verbatim>\<open>migrate_file\<close>. Everything from the \<^verbatim>\<open>open\<close> to the last \<^verbatim>\<open>print\<close> stands in the
  \<^verbatim>\<open>try\<close>: each exception there, also one of the \<^verbatim>\<open>print\<close> in the handler of
  \<^verbatim>\<open>yaml.YAMLError\<close> and of the \<^verbatim>\<open>print\<close> after the write, goes to \<open>handle_exception\<close>.
\<close>

definition migrate_file ::
  "yaml_lib \<Rightarrow> GenericTestMigrator \<Rightarrow> world \<Rightarrow> string
     \<Rightarrow> (error + bool) \<times> GenericTestMigrator \<times> world" where
  "migrate_file lib self w path =
     (case contents w path of
        Inl e \<Rightarrow> handle_exception path e self w
      | Inr original_content \<Rightarrow>
          (case safe_load lib original_content of
             YAMLError \<Rightarrow>
               (case print (CouldNotParse path) w of
                  Inl e \<Rightarrow> handle_exception path e self w
                | Inr w' \<Rightarrow> (Inr False, self, w'))
           | LoadRaises e \<Rightarrow> handle_exception path e self w
           | Loaded yaml_content \<Rightarrow>
               if \<not> truthy yaml_content then (Inr False, self, w)
               else (case process_yaml_content yaml_content of
                  Inl e \<Rightarrow> handle_exception path e self w
                | Inr (migrated_content, migrated_tests) \<Rightarrow>
                    if migrated_tests = [] then (Inr False, self, w)
                    else (case dump lib migrated_content of
                       Inl e \<Rightarrow> handle_exception path e self w
                     | Inr migrated_yaml \<Rightarrow>
                         let migration = \<lparr>file_path = path,
                                          test_name = join_names lib migrated_tests,
                                          arguments_moved = migrated_tests,
                                          line_number = None\<rparr>;
                             self' = self\<lparr>migrations_performed :=
                                            migrations_performed self @ [migration]\<rparr>
                         in if dry_run self
                            then (case print (Migrated True (length migrated_tests) path) w of
                                    Inl e \<Rightarrow> handle_exception path e self' w
                                  | Inr w' \<Rightarrow> (Inr True, self', w'))
                            else (case writes w path migrated_yaml of
                                    OpenRaises e \<Rightarrow> handle_exception path e self' w
                                  | WriteRaises e left \<Rightarrow>
                                      handle_exception path e self'
                                        (w\<lparr>contents := (contents w)(path := Inr left)\<rparr>)
                                  | Written \<Rightarrow>
                                      let w1 = w\<lparr>contents :=
                                                   (contents w)(path := Inr migrated_yaml)\<rparr>
                                      in (case print (Migrated False (length migrated_tests) path) w1 of
                                            Inl e \<Rightarrow> handle_exception path e self' w1
                                          | Inr w' \<Rightarrow> (Inr True, self', w')))))))"

definition find_yaml_files :: "GenericTestMigrator \<Rightarrow> world \<Rightarrow> string list" where
  "find_yaml_files self w =
     glob w (models_dir self) ''**/*.yml'' @ glob w (models_dir self) ''**/*.yaml''"

text \<open>
  The loop of \<^verbatim>\<open>run_migration\<close> over the files, carrying \<open>migrated_count\<close>; an exception
  that leaves \<^verbatim>\<open>migrate_file\<close> ends it.
\<close>

fun migrate_files ::
  "yaml_lib \<Rightarrow> string list \<Rightarrow> nat \<Rightarrow> GenericTestMigrator \<Rightarrow> world
     \<Rightarrow> (error + nat) \<times> GenericTestMigrator \<times> world" where
  "migrate_files lib [] migrated_count self w = (Inr migrated_count, self, w)"
| "migrate_files lib (yaml_file # files) migrated_count self w =
     (case migrate_file lib self w yaml_file of
        (Inl e, self', w') \<Rightarrow> (Inl e, self', w')
      | (Inr migrated, self', w') \<Rightarrow>
          migrate_files lib files (if migrated then migrated_count + 1 else migrated_count) self' w')"

text \<open>Calls of \<^verbatim>\<open>print\<close> one after the other: the first that raises ends them.\<close>

fun print_all :: "message list \<Rightarrow> world \<Rightarrow> error option \<times> world" where
  "print_all [] w = (None, w)"
| "print_all (m # ms) w = (case print m w of Inl e \<Rightarrow> (Some e, w) | Inr w' \<Rightarrow> print_all ms w')"

text \<open>
  \<^verbatim>\<open>run_migration\<close>: the exception that left it, if any, the migrator and the world. None
  of its \<^verbatim>\<open>print\<close> calls stands in a \<^verbatim>\<open>try\<close>.
\<close>

definition run_migration ::
  "yaml_lib \<Rightarrow> GenericTestMigrator \<Rightarrow> world \<Rightarrow> error option \<times> GenericTestMigrator \<times> world" where
  "run_migration lib self w =
     (let yaml_files = find_yaml_files self w in
      if yaml_files = [] then
        (case print_all [NoYamlFilesFound (models_dir self)] w of (raised, w') \<Rightarrow> (raised, self, w'))
      else
        (case print_all [FoundFiles (length yaml_files), ModeLine (dry_run self), Blank] w of
           (Some e, w0) \<Rightarrow> (Some e, self, w0)
         | (None, w0) \<Rightarrow>
             (case migrate_files lib yaml_files 0 self w0 of
                (Inl e, self', w') \<Rightarrow> (Some e, self', w')
              | (Inr migrated_count, self', w') \<Rightarrow>
                  (case print_all
                          ([Blank, MigrationComplete, FilesProcessed (length yaml_files),
                            FilesMigrated migrated_count,
                            TotalTestMigrations (length (migrations_performed self'))]
                           @ (if migrations_performed self' \<noteq> []
                              then MigrationsPerformed #
                                   map (\<lambda>m. MigrationLine (file_path m) (test_name m))
                                     (migrations_performed self')
                              else []))
                          w' of
                     (raised, w'') \<Rightarrow> (raised, self', w'')))))"

text \<open>
  \<^verbatim>\<open>main\<close> after \<^verbatim>\<open>parser.parse_args()\<close>, on the two parsed options: the exit status of
  the process and the world it leaves. \<^verbatim>\<open>sys.exit(1)\<close> gives status 1, and so does an
  exception that nothing catches.
\<close>

definition main :: "yaml_lib \<Rightarrow> string \<Rightarrow> bool \<Rightarrow> world \<Rightarrow> nat \<times> world" where
  "main lib models_dir_arg dry_run_arg w =
     (if \<not> path_exists w models_dir_arg
      then (1, snd (print_all [ModelsDirNotFound models_dir_arg, RunFromProjectRoot] w))
      else (case run_migration lib
                   \<lparr>models_dir = models_dir_arg, dry_run = dry_run_arg, migrations_performed = []\<rparr>
                   w of
              (Some e, self', w') \<Rightarrow> (1, w')
            | (None, self', w') \<Rightarrow> (0, w')))"

section \<open>Well-formed documents\<close>

text \<open>
  The trees that stand for loaded documents: no mapping holds a key twice, at any depth.
\<close>

fun wf_yaml :: "yaml \<Rightarrow> bool" where
  "wf_yaml (YScalar a) = True"
| "wf_yaml (YList xs) = list_all wf_yaml xs"
| "wf_yaml (YDict kvs) = (distinct (map fst kvs) \<and> list_all wf_yaml (map snd kvs))"

section \<open>Entries that carry no arguments\<close>

text \<open>\<open>only_reserved\<close>: every key of the mapping is in \<open>reserved_keys\<close>.\<close>

definition only_reserved :: "(scalar \<times> yaml) list \<Rightarrow> bool" where
  "only_reserved kvs = list_all (\<lambda>(k, v). is_reserved k) kvs"

text \<open>
  The entries of a check list that hold nothing to move: a scalar or a list; a
  single-key mapping whose key is a reserved key, unless the key is \<open>test_name\<close> and the
  value is a mapping that needs migration; a single-key mapping with a string key whose
  value is a mapping of reserved keys only; a mapping with no key or several keys that
  has no key \<open>test_name\<close>, or that has reserved keys only and a string under
  \<open>test_name\<close>.
\<close>

definition untouched_entry :: "yaml \<Rightarrow> bool" where
  "untouched_entry e =
     (case e of
        YScalar a \<Rightarrow> True
      | YList xs \<Rightarrow> True
      | YDict kvs \<Rightarrow>
          (case kvs of
             [(k, cfg)] \<Rightarrow>
               (case k of
                  SStr s \<Rightarrow>
                    (s \<in> reserved_keys \<and> \<not> (s = ''test_name'' \<and> needs_migration cfg))
                    \<or> (case cfg of YDict fs \<Rightarrow> only_reserved fs | _ \<Rightarrow> False)
                | _ \<Rightarrow> False)
           | _ \<Rightarrow>
               SStr ''test_name'' \<notin> set (map fst kvs)
               \<or> (only_reserved kvs
                   \<and> (case map_of kvs (SStr ''test_name'') of
                         Some (YScalar (SStr s)) \<Rightarrow> True
                       | _ \<Rightarrow> False))))"

section \<open>Example declarations\<close>

text \<open>
  Declarations as they stand in check lists: the scenarios of the specification, one
  with reserved keys only, two whose \<open>test_name\<close> is the integer 5, one with the single
  key \<open>test_name\<close> (before and after the migration), and two that hold \<open>arguments\<close>
  already, one beside the \<open>test_name\<close> 5 and one under the key 5.
\<close>

definition accepted_values_decl :: yaml where
  "accepted_values_decl =
     YDict [(SStr ''accepted_values'',
             YDict [(SStr ''values'', YList [YStr ''a'', YStr ''b'']),
                    (SStr ''config'', YDict [(SStr ''where'', YStr ''x'')])])]"

definition accepted_values_migrated :: yaml where
  "accepted_values_migrated =
     YDict [(SStr ''accepted_values'',
             YDict [(SStr ''config'', YDict [(SStr ''where'', YStr ''x'')]),
                    (SStr ''arguments'', YDict [(SStr ''values'', YList [YStr ''a'', YStr ''b''])])])]"

definition equality_items :: "(scalar \<times> yaml) list" where
  "equality_items =
     [(SStr ''test_name'', YStr ''dbt_utils.equality''),
      (SStr ''compare_model'', YStr ''ref('other')'')]"

definition equality_migrated :: yaml where
  "equality_migrated =
     YDict [(SStr ''test_name'', YStr ''dbt_utils.equality''),
            (SStr ''arguments'', YDict [(SStr ''compare_model'', YStr ''ref('other')'')])]"

definition reserved_only_decl :: yaml where
  "reserved_only_decl =
     YDict [(SStr ''test_name'', YStr ''unique''),
            (SStr ''config'', YDict [(SStr ''severity'', YStr ''warn'')])]"

definition int_named_decl :: yaml where
  "int_named_decl =
     YDict [(SStr ''test_name'', YInt 5), (SStr ''compare_model'', YStr ''ref('other')'')]"

definition int_named_reserved_decl :: yaml where
  "int_named_reserved_decl =
     YDict [(SStr ''test_name'', YInt 5),
            (SStr ''config'', YDict [(SStr ''severity'', YStr ''warn'')])]"

definition test_name_keyed_decl :: yaml where
  "test_name_keyed_decl =
     YDict [(SStr ''test_name'', YDict [(SStr ''values'', YList [YInt 1])])]"

definition test_name_keyed_migrated :: yaml where
  "test_name_keyed_migrated =
     YDict [(SStr ''test_name'',
             YDict [(SStr ''arguments'', YDict [(SStr ''values'', YList [YInt 1])])])]"

definition int_named_migrated_decl :: yaml where
  "int_named_migrated_decl =
     YDict [(SStr ''test_name'', YInt 5),
            (SStr ''arguments'', YDict [(SStr ''values'', YList [YInt 1])])]"

definition int_keyed_migrated_decl :: yaml where
  "int_keyed_migrated_decl =
     YDict [(SInt 5, YDict [(SStr ''arguments'', YDict [(SStr ''values'', YList [YInt 1])])])]"

section \<open>Steps that have nothing left to do\<close>

text \<open>
  For the proofs about the walker. \<open>at_field\<close> is the shape the steps of the walker
  share: test that the key is there, read the value under it, run a body on the value,
  leave the result under the key. \<open>on_list\<close> is a body that runs only on a list.
  \<open>stable_at f x\<close>: the step \<open>f\<close> returns \<open>x\<close> as it is and records nothing. A step is
  \<open>settled\<close> when it is stable at whatever it returns on a well-formed node.
\<close>

definition at_field ::
  "string \<Rightarrow> (yaml \<Rightarrow> error + (yaml \<times> yaml list)) \<Rightarrow> yaml \<Rightarrow> error + (yaml \<times> yaml list)" where
  "at_field key h x =
     bindE (py_in key x) (\<lambda>present.
       if \<not> present then Inr (x, [])
       else bindE (py_getitem x key) (\<lambda>v.
         bindE (h v) (\<lambda>(v', names). Inr (put_field x key v', names))))"

definition on_list ::
  "(yaml list \<Rightarrow> error + (yaml list \<times> yaml list)) \<Rightarrow> yaml \<Rightarrow> error + (yaml \<times> yaml list)" where
  "on_list body v =
     (case v of
        YList xs \<Rightarrow> bindE (body xs) (\<lambda>(xs', names). Inr (YList xs', names))
      | _ \<Rightarrow> Inr (v, []))"

definition stable_at :: "(yaml \<Rightarrow> error + (yaml \<times> yaml list)) \<Rightarrow> yaml \<Rightarrow> bool" where
  "stable_at f x \<longleftrightarrow> f x = Inr (x, [])"

definition settled :: "(yaml \<Rightarrow> error + (yaml \<times> yaml list)) \<Rightarrow> bool" where
  "settled f \<longleftrightarrow>
     (\<forall>x x' names. wf_yaml x \<longrightarrow> f x = Inr (x', names) \<longrightarrow> wf_yaml x' \<and> f x' = Inr (x', []))"

definition stabilises :: "(yaml \<Rightarrow> error + (yaml \<times> yaml list)) \<Rightarrow> (yaml \<Rightarrow> bool) \<Rightarrow> bool" where
  "stabilises f P \<longleftrightarrow>
     (\<forall>x x' names. wf_yaml x \<longrightarrow> f x = Inr (x', names) \<longrightarrow> wf_yaml x' \<and> P x')
     \<and> (\<forall>x. P x \<longrightarrow> f x = Inr (x, []))"

definition preserves :: "(yaml \<Rightarrow> error + (yaml \<times> yaml list)) \<Rightarrow> (yaml \<Rightarrow> bool) \<Rightarrow> bool" where
  "preserves g P \<longleftrightarrow> (\<forall>x x' names. g x = Inr (x', names) \<longrightarrow> P x \<longrightarrow> P x')"

definition inert :: "(yaml \<Rightarrow> error + (yaml \<times> yaml list)) \<Rightarrow> bool" where
  "inert f \<longleftrightarrow> (\<forall>a x' names. f (YScalar a) = Inr (x', names) \<longrightarrow> x' = YScalar a \<and> names = [])"

abbreviation tests_step :: "string \<Rightarrow> yaml \<Rightarrow> error + (yaml \<times> yaml list)" where
  "tests_step key \<equiv> at_field key (on_list process_test_list)"

abbreviation columns_step :: "yaml \<Rightarrow> error + (yaml \<times> yaml list)" where
  "columns_step \<equiv> at_field ''columns'' (on_list (for_each process_tests))"

abbreviation tables_step :: "yaml \<Rightarrow> error + (yaml \<times> yaml list)" where
  "tables_step \<equiv> at_field ''tables'' (iterate process_table)"

abbreviation resources_step :: "string \<Rightarrow> yaml \<Rightarrow> error + (yaml \<times> yaml list)" where
  "resources_step resource_type \<equiv> at_field resource_type (iterate (process_resource resource_type))"

section \<open>A declaration that already holds arguments\<close>

text \<open>
  An entry of a check list that is a mapping with the key \<open>arguments\<close>, or a single-key
  mapping whose value is a mapping with the key \<open>arguments\<close>.
\<close>

definition holds_arguments :: "yaml \<Rightarrow> bool" where
  "holds_arguments e =
     (case e of
        YDict kvs \<Rightarrow>
          SStr ''arguments'' \<in> set (map fst kvs)
          \<or> (length kvs = 1
              \<and> (case snd (hd kvs) of
                    YDict fs \<Rightarrow> SStr ''arguments'' \<in> set (map fst fs)
                  | _ \<Rightarrow> False))
      | _ \<Rightarrow> False)"

text \<open>
  The name position of an entry holds a string: the key of a single-key mapping, the
  value under \<open>test_name\<close> of any other mapping that has this key. An entry with no name
  position counts as well.
\<close>

definition string_named :: "yaml \<Rightarrow> bool" where
  "string_named e =
     (case e of
        YDict kvs \<Rightarrow>
          (case kvs of
             [(k, cfg)] \<Rightarrow> (case k of SStr s \<Rightarrow> True | _ \<Rightarrow> False)
           | _ \<Rightarrow>
               (case map_of kvs (SStr ''test_name'') of
                  None \<Rightarrow> True
                | Some (YScalar (SStr s)) \<Rightarrow> True
                | Some v \<Rightarrow> False))
      | _ \<Rightarrow> True)"

section \<open>An example document\<close>

text \<open>
  The document of the repository's test, as \<^verbatim>\<open>yaml.safe_load\<close> returns it (the quotes
  inside the \<open>where\<close> string left out), the same document migrated, and the names the
  migration records.
\<close>

definition test_schema :: yaml where
  "test_schema =
     YDict [
       (SStr ''version'', YInt 2),
       (SStr ''models'', YList [
          YDict [
            (SStr ''name'', YStr ''test_model''),
            (SStr ''tests'', YList [
               YDict [(SStr ''dbt_utils.expression_is_true'',
                       YDict [(SStr ''expression'', YStr ''amount > 0''),
                              (SStr ''config'', YDict [(SStr ''severity'', YStr ''warn'')])])]]),
            (SStr ''columns'', YList [
               YDict [(SStr ''name'', YStr ''id''),
                      (SStr ''tests'', YList [YStr ''unique'', YStr ''not_null''])],
               YDict [(SStr ''name'', YStr ''status''),
                      (SStr ''tests'', YList [
                         YDict [(SStr ''accepted_values'',
                                 YDict [(SStr ''values'', YList [YStr ''active'', YStr ''inactive'']),
                                        (SStr ''config'',
                                         YDict [(SStr ''where'', YStr ''created_at > 2020-01-01'')])])]])],
               YDict [(SStr ''name'', YStr ''parent_id''),
                      (SStr ''tests'', YList [
                         YDict [(SStr ''relationships'',
                                 YDict [(SStr ''to'', YStr ''ref('parent_table')''),
                                        (SStr ''field'', YStr ''id'')])]])]])]]),
       (SStr ''sources'', YList [
          YDict [
            (SStr ''name'', YStr ''test_source''),
            (SStr ''tables'', YList [
               YDict [(SStr ''name'', YStr ''raw_data''),
                      (SStr ''columns'', YList [
                         YDict [(SStr ''name'', YStr ''combo_key''),
                                (SStr ''tests'', YList [
                                   YDict [(SStr ''dbt_utils.unique_combination_of_columns'',
                                           YDict [(SStr ''combination_of_columns'',
                                                   YList [YStr ''col1'', YStr ''col2''])])]])]])]])]])]"

definition test_schema_migrated :: yaml where
  "test_schema_migrated =
     YDict [
       (SStr ''version'', YInt 2),
       (SStr ''models'', YList [
          YDict [
            (SStr ''name'', YStr ''test_model''),
            (SStr ''tests'', YList [
               YDict [(SStr ''dbt_utils.expression_is_true'',
                       YDict [(SStr ''config'', YDict [(SStr ''severity'', YStr ''warn'')]),
                              (SStr ''arguments'',
                               YDict [(SStr ''expression'', YStr ''amount > 0'')])])]]),
            (SStr ''columns'', YList [
               YDict [(SStr ''name'', YStr ''id''),
                      (SStr ''tests'', YList [YStr ''unique'', YStr ''not_null''])],
               YDict [(SStr ''name'', YStr ''status''),
                      (SStr ''tests'', YList [
                         YDict [(SStr ''accepted_values'',
                                 YDict [(SStr ''config'',
                                         YDict [(SStr ''where'', YStr ''created_at > 2020-01-01'')]),
                                        (SStr ''arguments'',
                                         YDict [(SStr ''values'',
                                                 YList [YStr ''active'', YStr ''inactive''])])])]])],
               YDict [(SStr ''name'', YStr ''parent_id''),
                      (SStr ''tests'', YList [
                         YDict [(SStr ''relationships'',
                                 YDict [(SStr ''arguments'',
                                         YDict [(SStr ''to'', YStr ''ref('parent_table')''),
                                                (SStr ''field'', YStr ''id'')])])]])]])]]),
       (SStr ''sources'', YList [
          YDict [
            (SStr ''name'', YStr ''test_source''),
            (SStr ''tables'', YList [
               YDict [(SStr ''name'', YStr ''raw_data''),
                      (SStr ''columns'', YList [
                         YDict [(SStr ''name'', YStr ''combo_key''),
                                (SStr ''tests'', YList [
                                   YDict [(SStr ''dbt_utils.unique_combination_of_columns'',
                                           YDict [(SStr ''arguments'',
                                                   YDict [(SStr ''combination_of_columns'',
                                                           YList [YStr ''col1'', YStr ''col2''])])])]])]])]])]])]"

definition test_schema_names :: "yaml list" where
  "test_schema_names =
     [YStr ''dbt_utils.expression_is_true'', YStr ''accepted_values'', YStr ''relationships'',
      YStr ''dbt_utils.unique_combination_of_columns'']"

section \<open>An example run\<close>

text \<open>
  Three more documents: one whose second declaration has the integer 5 under
  \<open>test_name\<close>, one with a declaration keyed by the integer 5, one with a seed. A parser
  and a serializer that stand for PyYAML on a few texts, a directory \<open>models\<close> with a
  file for each way a file can fail and one that migrates, a console that prints every
  line, and a migrator.
\<close>

definition bad_schema :: yaml where
  "bad_schema =
     YDict [
       (SStr ''version'', YInt 2),
       (SStr ''models'', YList [
          YDict [
            (SStr ''name'', YStr ''test_model''),
            (SStr ''tests'', YList [accepted_values_decl, int_named_decl])]])]"

definition int_keyed_schema :: yaml where
  "int_keyed_schema =
     YDict [
       (SStr ''models'', YList [
          YDict [
            (SStr ''name'', YStr ''test_model''),
            (SStr ''columns'', YList [
               YDict [(SStr ''name'', YStr ''id''),
                      (SStr ''tests'', YList [
                         accepted_values_decl,
                         YDict [(SInt 5, YDict [(SStr ''values'', YList [YInt 1])])]])]])]])]"

definition seeds_schema :: yaml where
  "seeds_schema =
     YDict [
       (SStr ''seeds'', YList [
          YDict [
            (SStr ''name'', YStr ''countries''),
            (SStr ''tests'', YList [accepted_values_decl])]])]"

definition example_lib :: yaml_lib where
  "example_lib =
     \<lparr>safe_load = (\<lambda>src. if src = ''good'' then Loaded test_schema
                         else if src = ''bad'' then Loaded bad_schema
                         else if src = ''seeds'' then Loaded seeds_schema
                         else if src = ''deep'' then LoadRaises OtherError
                         else YAMLError),
      dump = (\<lambda>doc. if py_in ''seeds'' doc = Inr True then Inl OtherError else Inr ''migrated''),
      join_names = (\<lambda>names. ''names'')\<rparr>"

definition example_files :: "string list" where
  "example_files =
     [''models/bad.yml'', ''models/broken.yml'', ''models/deep.yml'', ''models/dir.yml'',
      ''models/latin1.yml'', ''models/seeds.yml'', ''models/readonly.yml'', ''models/full.yml'',
      ''models/schema.yml'']"

definition example_contents :: "string \<Rightarrow> error + string" where
  "example_contents path =
     (if path = ''models/bad.yml'' then Inr ''bad''
      else if path = ''models/broken.yml'' then Inr ''{''
      else if path = ''models/deep.yml'' then Inr ''deep''
      else if path = ''models/latin1.yml'' then Inl UnicodeError
      else if path = ''models/seeds.yml'' then Inr ''seeds''
      else if path = ''models/readonly.yml'' then Inr ''good''
      else if path = ''models/full.yml'' then Inr ''good''
      else if path = ''models/schema.yml'' then Inr ''good''
      else Inl OSError)"

definition example_world :: world where
  "example_world =
     \<lparr>contents = example_contents,
      writes = (\<lambda>path out. if path = ''models/readonly.yml'' then OpenRaises OSError
                            else if path = ''models/full.yml'' then WriteRaises OSError []
                            else Written),
      path_exists = (\<lambda>path. path = ''models''),
      glob = (\<lambda>dir pattern. if dir = ''models'' \<and> pattern = ''**/*.yml'' then example_files else []),
      console = [],
      refuses = (\<lambda>m. None)\<rparr>"


definition example_migrator :: "bool \<Rightarrow> GenericTestMigrator" where
  "example_migrator dry = \<lparr>models_dir = ''models'', dry_run = dry, migrations_performed = []\<rparr>"

definition example_migration :: "string \<Rightarrow> TestMigration" where
  "example_migration path =
     \<lparr>file_path = path, test_name = ''names'', arguments_moved = test_schema_names,
      line_number = None\<rparr>"

definition seeds_migrated :: yaml where
  "seeds_migrated =
     YDict [
       (SStr ''seeds'', YList [
          YDict [
            (SStr ''name'', YStr ''countries''),
            (SStr ''tests'', YList [accepted_values_migrated])]])]"

section \<open>Properties of the classifier, the predicate and the restructurer\<close>

lemma bindE_simps [simp]: "bindE (Inl e) f = Inl e" "bindE (Inr a) f = f a"
  by (simp_all add: bindE_def)

lemma str_contains_char: "str_contains [c] s = (c \<in> set s)"
  by (induction s) auto

lemma is_reserved_iff: "is_reserved k = (k \<in> SStr ` reserved_keys)"
  by (cases k) auto

lemma any_unreserved_iff: "any_unreserved ks = (\<exists>k\<in>set ks. \<not> is_reserved k)"
  by (induction ks) auto

lemma config_keys_not_known: "s \<in> config_keys \<Longrightarrow> s \<notin> ALL_GENERIC_TESTS \<and> CHR ''.'' \<notin> set s"
  by (auto simp: config_keys_def ALL_GENERIC_TESTS_def BUILTIN_GENERIC_TESTS_def
      DBT_UTILS_TESTS_def DBT_EXPECTATIONS_TESTS_def)

text \<open>
  C2. On a string, \<^verbatim>\<open>is_generic_test\<close> never raises; it returns true for a name of the
  known sets and for a name with a dot in it, and it returns false exactly for the six
  structural keys \<open>config_keys\<close>, so every other name classifies as a generic check.
\<close>

theorem is_generic_test_string:
  "(s \<in> ALL_GENERIC_TESTS \<longrightarrow> is_generic_test (YStr s) = Inr True)
   \<and> (CHR ''.'' \<in> set s \<longrightarrow> is_generic_test (YStr s) = Inr True)
   \<and> (is_generic_test (YStr s) = Inr False \<longleftrightarrow>
        s \<in> {''config'', ''name'', ''description'', ''tags'', ''meta'', ''arguments''})
   \<and> is_generic_test (YStr s) = Inr (s \<notin> config_keys)"
  using config_keys_not_known [of s]
  by (auto simp: is_generic_test_def str_contains_char) (auto simp: config_keys_def)

theorem is_generic_test_string_witness:
  "''dbt_utils.equality'' \<in> ALL_GENERIC_TESTS \<and> CHR ''.'' \<in> set ''my_pkg.my_check''
   \<and> is_generic_test (YStr ''dbt_utils.equality'') = Inr True
   \<and> is_generic_test (YStr ''my_pkg.my_check'') = Inr True
   \<and> is_generic_test (YStr ''my_custom_check'') = Inr True
   \<and> is_generic_test (YStr ''arguments'') = Inr False"
  using is_generic_test_string [of "''dbt_utils.equality''"]
    is_generic_test_string [of "''my_pkg.my_check''"]
    is_generic_test_string [of "''my_custom_check''"]
    is_generic_test_string [of "''arguments''"]
  by (simp add: ALL_GENERIC_TESTS_def DBT_UTILS_TESTS_def config_keys_def)

text \<open>
  C3. \<^verbatim>\<open>needs_migration\<close> is true exactly when its argument is a mapping without the key
  \<open>arguments\<close> that has some key outside the reserved set; so it is false on what is not
  a mapping, false when \<open>arguments\<close> is a key, false on the empty mapping and on one
  with reserved keys only.
\<close>

theorem needs_migration_cases:
  "needs_migration t =
     (\<exists>kvs. t = YDict kvs \<and> SStr ''arguments'' \<notin> fst ` set kvs
        \<and> (\<exists>k \<in> fst ` set kvs.
             k \<notin> SStr ` {''config'', ''name'', ''description'', ''tags'', ''meta'', ''test_name''}))"
  by (cases t) (auto simp: any_unreserved_iff is_reserved_iff reserved_keys_def)

theorem needs_migration_cases_witness:
  "needs_migration (YDict [(SStr ''config'', YNull), (SStr ''values'', YNull)])
   \<and> \<not> needs_migration (YDict [(SStr ''values'', YNull), (SStr ''arguments'', YDict [])])
   \<and> \<not> needs_migration (YDict [(SStr ''config'', YNull), (SStr ''test_name'', YStr ''unique'')])
   \<and> \<not> needs_migration (YDict [])
   \<and> \<not> needs_migration (YList [YStr ''values''])
   \<and> \<not> needs_migration (YStr ''values'')"
  using needs_migration_cases [of "YDict [(SStr ''config'', YNull), (SStr ''values'', YNull)]"]
    needs_migration_cases [of "YDict [(SStr ''values'', YNull), (SStr ''arguments'', YDict [])]"]
    needs_migration_cases [of "YDict [(SStr ''config'', YNull), (SStr ''test_name'', YStr ''unique'')]"]
    needs_migration_cases [of "YDict []"]
    needs_migration_cases [of "YList [YStr ''values'']"]
    needs_migration_cases [of "YStr ''values''"]
  by simp

lemma dict_set_fresh: "k \<notin> fst ` set d \<Longrightarrow> dict_set d k v = d @ [(k, v)]"
  by (induction d) auto

lemma partition_items_distinct:
  "distinct (map fst kvs) \<Longrightarrow> fst ` set kvs \<inter> (fst ` set nd \<union> fst ` set args) = {}
   \<Longrightarrow> partition_items kvs nd args =
       (nd @ filter (\<lambda>(k, v). is_reserved k) kvs, args @ filter (\<lambda>(k, v). \<not> is_reserved k) kvs)"
proof (induction kvs arbitrary: nd args)
  case Nil
  then show ?case by simp
next
  case (Cons kv kvs)
  obtain k v where kv: "kv = (k, v)" by (cases kv)
  from Cons.prems have fresh: "k \<notin> fst ` set nd" "k \<notin> fst ` set args" "k \<notin> fst ` set kvs"
    and d: "distinct (map fst kvs)"
    and disj: "fst ` set kvs \<inter> (fst ` set nd \<union> fst ` set args) = {}"
    by (auto simp: kv)
  show ?case
  proof (cases "is_reserved k")
    case True
    have "fst ` set kvs \<inter> (fst ` set (nd @ [(k, v)]) \<union> fst ` set args) = {}"
      using disj fresh by auto
    from Cons.IH [OF d this] True fresh show ?thesis
      by (simp add: kv dict_set_fresh)
  next
    case False
    have "fst ` set kvs \<inter> (fst ` set nd \<union> fst ` set (args @ [(k, v)])) = {}"
      using disj fresh by auto
    from Cons.IH [OF d this] False fresh show ?thesis
      by (simp add: kv dict_set_fresh)
  qed
qed

lemma migrate_test_dict_distinct:
  assumes "needs_migration (YDict kvs)" and "distinct (map fst kvs)"
  shows "migrate_test_dict (YDict kvs) =
           YDict (filter (\<lambda>(k, v). k \<in> SStr ` reserved_keys) kvs
                  @ [(SStr ''arguments'', YDict (filter (\<lambda>(k, v). k \<notin> SStr ` reserved_keys) kvs))])"
proof -
  let ?res = "filter (\<lambda>(k, v). is_reserved k) kvs"
  let ?args = "filter (\<lambda>(k, v). \<not> is_reserved k) kvs"
  have p: "partition_items kvs [] [] = (?res, ?args)"
    using partition_items_distinct [OF assms(2), of "[]" "[]"] by simp
  from assms(1) have "\<exists>k\<in>set (map fst kvs). \<not> is_reserved k"
    by (simp add: any_unreserved_iff split: if_splits)
  then have ne: "?args \<noteq> []"
    by (auto simp: filter_empty_conv)
  have "SStr ''arguments'' \<notin> fst ` set ?res"
    by (auto simp: reserved_keys_def)
  then have "dict_set ?res (SStr ''arguments'') (YDict ?args) = ?res @ [(SStr ''arguments'', YDict ?args)]"
    by (rule dict_set_fresh)
  with assms(1) p ne show ?thesis
    by (simp add: is_reserved_iff split: if_splits)
qed

text \<open>
  C1. On a mapping that needs migration (a Python dict: its keys are distinct),
  \<^verbatim>\<open>migrate_test_dict\<close> returns the items with a reserved key, in the order met and
  with their values, followed by one item \<open>arguments\<close>, last, whose value is the mapping
  of the remaining items, in the order met and with their values. Every item of the
  input is in exactly one of the two parts. The function builds its result from two
  empty dicts and assigns to nothing else, so the argument is the same after the call.
\<close>

theorem migrate_test_dict_result:
  assumes "needs_migration (YDict kvs)" and "distinct (map fst kvs)"
  shows "migrate_test_dict (YDict kvs) =
           YDict (filter (\<lambda>(k, v). k \<in> SStr ` reserved_keys) kvs
                  @ [(SStr ''arguments'', YDict (filter (\<lambda>(k, v). k \<notin> SStr ` reserved_keys) kvs))])"
  using assms by (rule migrate_test_dict_distinct)

theorem migrate_test_dict_result_witness:
  "needs_migration (YDict [(SStr ''values'', YList [YStr ''a'', YStr ''b'']),
                           (SStr ''config'', YDict [(SStr ''where'', YStr ''x'')])])
   \<and> distinct (map fst [(SStr ''values'', YList [YStr ''a'', YStr ''b'']),
                         (SStr ''config'', YDict [(SStr ''where'', YStr ''x'')])])
   \<and> migrate_test_dict (YDict [(SStr ''values'', YList [YStr ''a'', YStr ''b'']),
                                (SStr ''config'', YDict [(SStr ''where'', YStr ''x'')])])
       = YDict [(SStr ''config'', YDict [(SStr ''where'', YStr ''x'')]),
                (SStr ''arguments'', YDict [(SStr ''values'', YList [YStr ''a'', YStr ''b''])])]"
  using migrate_test_dict_result [of "[(SStr ''values'', YList [YStr ''a'', YStr ''b'']),
                           (SStr ''config'', YDict [(SStr ''where'', YStr ''x'')])]"]
  by (simp add: reserved_keys_def)

section \<open>Properties of the check-list processor\<close>

lemma bindE_eq_Inr: "bindE m f = Inr r \<longleftrightarrow> (\<exists>a. m = Inr a \<and> f a = Inr r)"
  by (cases m) auto

lemma is_generic_test_raises: "(\<forall>s. v \<noteq> YStr s) \<Longrightarrow> is_generic_test v = Inl TypeError"
proof (cases v)
  case (YScalar a)
  assume "\<forall>s. v \<noteq> YStr s"
  with YScalar show ?thesis by (cases a) (auto simp: is_generic_test_def)
qed (auto simp: is_generic_test_def)

lemma is_generic_test_Inr: "is_generic_test v = Inr b \<Longrightarrow> \<exists>s. v = YStr s"
  using is_generic_test_raises [of v] by auto

lemma is_generic_test_str: "is_generic_test (YStr s) = Inr (s \<notin> config_keys)"
  using config_keys_not_known [of s]
  by (auto simp: is_generic_test_def str_contains_char)

subsection \<open>Loops over lists\<close>

lemma for_each_append:
  "for_each f (xs @ ys) =
     bindE (for_each f xs) (\<lambda>(xs', n). bindE (for_each f ys) (\<lambda>(ys', n'). Inr (xs' @ ys', n @ n')))"
proof (induction xs)
  case Nil
  show ?case by (cases "for_each f ys") auto
next
  case (Cons x xs)
  show ?case
  proof (cases "f x")
    case (Inl e)
    then show ?thesis by simp
  next
    case (Inr r)
    obtain x' n where r: "r = (x', n)" by (cases r)
    show ?thesis
    proof (cases "for_each f xs")
      case (Inl e)
      with Inr r Cons show ?thesis by simp
    next
      case xsr: (Inr rs)
      obtain xs' ns where rs: "rs = (xs', ns)" by (cases rs)
      show ?thesis
        using Inr r xsr rs Cons by (cases "for_each f ys") auto
    qed
  qed
qed

lemma for_each_ConsE:
  assumes "for_each f (x # xs) = Inr (ys, ns)"
  obtains x' n xs' ns' where "f x = Inr (x', n)" "for_each f xs = Inr (xs', ns')"
    "ys = x' # xs'" "ns = n @ ns'"
  using assms by (auto simp: bindE_eq_Inr)

lemma for_each_list_all2:
  "for_each f xs = Inr (ys, ns) \<Longrightarrow> list_all2 (\<lambda>x y. \<exists>n. f x = Inr (y, n)) xs ys"
proof (induction xs arbitrary: ys ns)
  case Nil
  then show ?case by simp
next
  case (Cons x xs)
  from Cons.prems show ?case
    by (elim for_each_ConsE) (auto dest: Cons.IH)
qed

subsection \<open>One entry of a check list\<close>

lemma process_test_shape:
  assumes "process_test e = Inr (e', n)"
  shows "e' = e \<or> e' = migrate_test_dict e
         \<or> (\<exists>k cfg. e = YDict [(k, cfg)] \<and> e' = YDict [(k, migrate_test_dict cfg)])"
proof (cases e)
  case (YScalar a)
  with assms show ?thesis by (cases a) auto
next
  case (YList xs)
  with assms show ?thesis by auto
next
  case (YDict kvs)
  show ?thesis
  proof (cases "length kvs = 1")
    case True
    then obtain k cfg where kvs: "kvs = [(k, cfg)]"
      by (cases kvs) auto
    with assms YDict show ?thesis
      by (auto simp: process_single_def bindE_eq_Inr split: if_splits)
  next
    case False
    with assms YDict show ?thesis
      by (auto simp: process_keyed_def bindE_eq_Inr split: if_splits)
  qed
qed

text \<open>
  C6. Whenever \<^verbatim>\<open>process_test_list\<close> returns, its output list has the length of the
  input, and entry \<open>i\<close> of the output is entry \<open>i\<close> of the input, or that entry
  restructured: the whole mapping for a declaration with a \<open>test_name\<close> key, the fields
  under the name for a single-key declaration. Nothing is added, dropped or moved.
\<close>

theorem process_test_list_order:
  assumes "process_test_list ts = Inr (ts', names)"
  shows "length ts' = length ts
         \<and> list_all2 (\<lambda>e e'. e' = e \<or> e' = migrate_test_dict e
                \<or> (\<exists>k cfg. e = YDict [(k, cfg)] \<and> e' = YDict [(k, migrate_test_dict cfg)])) ts ts'"
proof -
  from assms have a: "list_all2 (\<lambda>x y. \<exists>n. process_test x = Inr (y, n)) ts ts'"
    unfolding process_test_list_def by (rule for_each_list_all2)
  then have "length ts' = length ts"
    by (simp add: list_all2_lengthD)
  moreover from a have "list_all2 (\<lambda>e e'. e' = e \<or> e' = migrate_test_dict e
                \<or> (\<exists>k cfg. e = YDict [(k, cfg)] \<and> e' = YDict [(k, migrate_test_dict cfg)])) ts ts'"
    by (rule list_all2_mono) (auto dest: process_test_shape)
  ultimately show ?thesis by simp
qed

lemma process_test_list_insert:
  assumes "process_test_list before = Inr (b', nb)" and "process_test_list after = Inr (a', na)"
  shows "process_test_list (before @ e # after) =
           bindE (process_test e) (\<lambda>(e', n). Inr (b' @ e' # a', nb @ n @ na))"
  using assms unfolding process_test_list_def
  by (cases "process_test e") (auto simp: for_each_append)

lemma process_test_keyed_string:
  assumes "length kvs \<noteq> 1" and "map_of kvs (SStr ''test_name'') = Some (YStr s)"
  shows "process_test (YDict kvs) =
          (if is_generic_test (YStr s) = Inr True \<and> needs_migration (YDict kvs)
           then Inr (migrate_test_dict (YDict kvs), [YStr s])
           else Inr (YDict kvs, []))"
proof -
  from assms(2) have "SStr ''test_name'' \<in> set (map fst kvs)"
    by (metis map_of_eq_None_iff option.distinct(1) set_map)
  with assms show ?thesis
    by (simp add: process_keyed_def is_generic_test_str)
qed

lemma map_of_filter_key:
  "(\<And>v. P (k, v)) \<Longrightarrow> map_of (filter P kvs) k = map_of kvs k"
  by (induction kvs) auto

lemma migrate_keeps_reserved:
  assumes "needs_migration (YDict kvs)" and "distinct (map fst kvs)" and "is_reserved k"
  shows "\<exists>items. migrate_test_dict (YDict kvs) = YDict items \<and> map_of items k = map_of kvs k
           \<and> SStr ''arguments'' \<in> set (map fst items)"
proof -
  let ?res = "filter (\<lambda>(k, v). k \<in> SStr ` reserved_keys) kvs"
  have "map_of ?res k = map_of kvs k"
    using assms(3) by (intro map_of_filter_key) (simp add: is_reserved_iff)
  moreover have "k \<noteq> SStr ''arguments''"
    using assms(3) by (auto simp: reserved_keys_def)
  moreover note eq = migrate_test_dict_distinct [OF assms(1,2)]
  ultimately show ?thesis
    unfolding eq by (auto simp: map_add_def split: option.splits)
qed

text \<open>
  C5, amended. An entry that is a mapping with more than one key (a Python dict: its
  keys are distinct) and a string under \<open>test_name\<close>, in a list whose other entries are
  processed without an exception: when the string classifies as generic and the whole
  mapping needs migration, \<^verbatim>\<open>process_test_list\<close> puts the restructured whole mapping in
  its place and records the string, and the restructured mapping still holds the string
  under \<open>test_name\<close> at its top level; otherwise the entry is passed through unchanged
  and nothing is recorded for it.
\<close>

theorem process_test_list_keyed:
  assumes "process_test_list before = Inr (b', nb)" and "process_test_list after = Inr (a', na)"
    and "length kvs > 1" and "distinct (map fst kvs)"
    and "map_of kvs (SStr ''test_name'') = Some (YStr s)"
  shows "process_test_list (before @ YDict kvs # after) =
          (if is_generic_test (YStr s) = Inr True \<and> needs_migration (YDict kvs)
           then Inr (b' @ migrate_test_dict (YDict kvs) # a', nb @ YStr s # na)
           else Inr (b' @ YDict kvs # a', nb @ na))
         \<and> (needs_migration (YDict kvs) \<longrightarrow>
              (\<exists>items. migrate_test_dict (YDict kvs) = YDict items
                 \<and> map_of items (SStr ''test_name'') = Some (YStr s)))"
proof
  from assms(3) have "length kvs \<noteq> 1" by simp
  from process_test_keyed_string [OF this assms(5)]
  show "process_test_list (before @ YDict kvs # after) =
          (if is_generic_test (YStr s) = Inr True \<and> needs_migration (YDict kvs)
           then Inr (b' @ migrate_test_dict (YDict kvs) # a', nb @ YStr s # na)
           else Inr (b' @ YDict kvs # a', nb @ na))"
    by (simp add: process_test_list_insert [OF assms(1,2)])
  have "is_reserved (SStr ''test_name'')" by (simp add: reserved_keys_def)
  then show "needs_migration (YDict kvs) \<longrightarrow>
          (\<exists>items. migrate_test_dict (YDict kvs) = YDict items
             \<and> map_of items (SStr ''test_name'') = Some (YStr s))"
    using migrate_keeps_reserved [OF _ assms(4), of "SStr ''test_name''"] assms(5) by auto
qed

lemma only_reserved_no_migration: "only_reserved kvs \<Longrightarrow> \<not> needs_migration (YDict kvs)"
  by (auto simp: only_reserved_def any_unreserved_iff list_all_iff)

lemma process_test_untouched:
  assumes "untouched_entry e"
  shows "process_test e = Inr (e, [])"
proof (cases e)
  case (YScalar a)
  then show ?thesis by (cases a) auto
next
  case (YList xs)
  then show ?thesis by simp
next
  case (YDict kvs)
  show ?thesis
  proof (cases "length kvs = 1")
    case True
    then obtain k cfg where kvs: "kvs = [(k, cfg)]"
      by (cases kvs) auto
    from assms YDict kvs obtain s where k: "k = SStr s"
      and s: "(s \<in> reserved_keys \<and> \<not> (s = ''test_name'' \<and> needs_migration cfg))
              \<or> (\<exists>fs. cfg = YDict fs \<and> only_reserved fs)"
      by (cases k; cases cfg) (auto simp: untouched_entry_def)
    from s have "s \<in> config_keys \<or> \<not> needs_migration cfg"
    proof
      assume "s \<in> reserved_keys \<and> \<not> (s = ''test_name'' \<and> needs_migration cfg)"
      then show ?thesis by (cases "s = ''test_name''") (auto simp: reserved_keys_def config_keys_def)
    next
      assume "\<exists>fs. cfg = YDict fs \<and> only_reserved fs"
      then obtain fs where "cfg = YDict fs" "only_reserved fs" by blast
      then show ?thesis using only_reserved_no_migration [of fs] by simp
    qed
    then show ?thesis
      using YDict kvs k by (auto simp: process_single_def is_generic_test_str)
  next
    case False
    then have shape: "\<And>k cfg. kvs \<noteq> [(k, cfg)]" by auto
    show ?thesis
    proof (cases "SStr ''test_name'' \<in> set (map fst kvs)")
      case no: False
      with False YDict show ?thesis by (simp add: process_keyed_def)
    next
      case yes: True
      from assms YDict False yes have r: "only_reserved kvs"
        and "\<exists>s. map_of kvs (SStr ''test_name'') = Some (YStr s)"
        by (cases kvs; auto simp: untouched_entry_def split: list.splits option.splits yaml.splits scalar.splits prod.splits)+
      then obtain s where "map_of kvs (SStr ''test_name'') = Some (YStr s)" by blast
      from process_test_keyed_string [OF False this] only_reserved_no_migration [OF r] YDict
      show ?thesis by simp
    qed
  qed
qed

text \<open>
  C7, amended. An entry that is a bare string or any other scalar, a list, a mapping
  with no key or several keys and no key \<open>test_name\<close>, a mapping of reserved keys only
  (except one with several keys and no string under \<open>test_name\<close>, and except the single
  key \<open>test_name\<close> over a mapping that needs migration), or a single-key mapping with a
  string key whose value is a mapping of reserved keys only, in a list whose other
  entries are processed without an exception: \<^verbatim>\<open>process_test_list\<close> passes it through
  unchanged and records no name for it.
\<close>

theorem process_test_list_untouched:
  assumes "process_test_list before = Inr (b', nb)" and "process_test_list after = Inr (a', na)"
    and "untouched_entry e"
  shows "process_test_list (before @ e # after) = Inr (b' @ e # a', nb @ na)"
  by (simp add: process_test_list_insert [OF assms(1,2)] process_test_untouched [OF assms(3)])


lemmas ex_defs = accepted_values_decl_def accepted_values_migrated_def equality_items_def
  equality_migrated_def reserved_only_decl_def int_named_decl_def int_named_reserved_decl_def
  test_name_keyed_decl_def test_name_keyed_migrated_def int_named_migrated_decl_def
  int_keyed_migrated_decl_def

lemma classify_int_five: "is_generic_test (YInt 5) = Inl TypeError"
  by (simp add: is_generic_test_def)

lemma process_accepted_values:
  "process_test_list [accepted_values_decl] = Inr ([accepted_values_migrated], [YStr ''accepted_values''])"
  by (simp add: ex_defs process_test_list_def process_single_def is_generic_test_str config_keys_def
      reserved_keys_def)

lemma process_not_null:
  "process_test_list [YStr ''not_null''] = Inr ([YStr ''not_null''], [])"
  by (simp add: process_test_list_def)

theorem process_test_list_keyed_witness:
  "process_test_list [accepted_values_decl] = Inr ([accepted_values_migrated], [YStr ''accepted_values''])
   \<and> process_test_list [YStr ''not_null''] = Inr ([YStr ''not_null''], [])
   \<and> length equality_items > 1 \<and> distinct (map fst equality_items)
   \<and> map_of equality_items (SStr ''test_name'') = Some (YStr ''dbt_utils.equality'')
   \<and> is_generic_test (YStr ''dbt_utils.equality'') = Inr True
   \<and> needs_migration (YDict equality_items)
   \<and> migrate_test_dict (YDict equality_items) = equality_migrated
   \<and> process_test_list ([accepted_values_decl] @ YDict equality_items # [YStr ''not_null''])
       = Inr ([accepted_values_migrated] @ equality_migrated # [YStr ''not_null''],
              [YStr ''accepted_values''] @ YStr ''dbt_utils.equality'' # [])"
proof -
  have 1: "length equality_items > 1" "distinct (map fst equality_items)"
    "map_of equality_items (SStr ''test_name'') = Some (YStr ''dbt_utils.equality'')"
    by (simp_all add: equality_items_def)
  have 2: "is_generic_test (YStr ''dbt_utils.equality'') = Inr True"
    by (simp add: is_generic_test_str config_keys_def)
  have 3: "needs_migration (YDict equality_items)"
    "migrate_test_dict (YDict equality_items) = equality_migrated"
    by (simp_all add: equality_items_def equality_migrated_def reserved_keys_def)
  from process_test_list_keyed [OF process_accepted_values process_not_null 1] 2 3
    process_accepted_values process_not_null 1
  show ?thesis by (simp del: needs_migration.simps migrate_test_dict.simps)
qed

text \<open>
  C5 as stated fails when the value under \<open>test_name\<close> is not a string: the entry
  \<^verbatim>\<open>{test_name: 5, compare_model: "ref('other')"}\<close> is neither restructured nor passed
  through, the classifier raises \<^verbatim>\<open>TypeError\<close> at \<^verbatim>\<open>'.' in test_key\<close> and the call
  returns nothing.
\<close>

theorem process_test_list_keyed_counterexample:
  "process_test_list [int_named_decl] = Inl TypeError
   \<and> process_test_list [int_named_decl] \<noteq> Inr ([int_named_decl], [])
   \<and> process_test_list [int_named_decl] \<noteq> Inr ([migrate_test_dict int_named_decl], [YInt 5])"
  by (simp add: int_named_decl_def process_test_list_def process_keyed_def is_generic_test_def)

theorem process_test_list_untouched_witness:
  "process_test_list [accepted_values_decl] = Inr ([accepted_values_migrated], [YStr ''accepted_values''])
   \<and> process_test_list [YStr ''not_null''] = Inr ([YStr ''not_null''], [])
   \<and> untouched_entry reserved_only_decl
   \<and> process_test_list ([accepted_values_decl] @ reserved_only_decl # [YStr ''not_null''])
       = Inr ([accepted_values_migrated] @ reserved_only_decl # [YStr ''not_null''],
              [YStr ''accepted_values''] @ [])
   \<and> untouched_entry (YDict [(SStr ''test_name'', YStr ''unique'')])
   \<and> process_test_list ([] @ YDict [(SStr ''test_name'', YStr ''unique'')] # [])
       = Inr ([] @ YDict [(SStr ''test_name'', YStr ''unique'')] # [], [] @ [])
   \<and> untouched_entry (YDict [(SStr ''test_name'', YDict [(SStr ''arguments'', YDict [])])])
   \<and> process_test_list ([] @ YDict [(SStr ''test_name'', YDict [(SStr ''arguments'', YDict [])])] # [])
       = Inr ([] @ YDict [(SStr ''test_name'', YDict [(SStr ''arguments'', YDict [])])] # [], [] @ [])"
proof -
  have u: "untouched_entry reserved_only_decl"
    "untouched_entry (YDict [(SStr ''test_name'', YStr ''unique'')])"
    "untouched_entry (YDict [(SStr ''test_name'', YDict [(SStr ''arguments'', YDict [])])])"
    by (simp_all add: untouched_entry_def reserved_only_decl_def only_reserved_def reserved_keys_def)
  have e: "process_test_list [] = Inr ([], [])"
    by (simp add: process_test_list_def)
  from process_test_list_untouched [OF process_accepted_values process_not_null u(1)]
    process_test_list_untouched [OF e e u(2)] process_test_list_untouched [OF e e u(3)]
    process_accepted_values process_not_null u
  show ?thesis by simp
qed

text \<open>
  C7 as stated fails on two mappings of reserved keys only. On
  \<^verbatim>\<open>{test_name: 5, config: {severity: warn}}\<close> the classifier raises \<^verbatim>\<open>TypeError\<close> and
  the entry is not passed through. The single-key \<^verbatim>\<open>{test_name: {values: [1]}}\<close> is
  read as the declaration named \<open>test_name\<close>: it is restructured and its name recorded.
\<close>

theorem process_test_list_untouched_counterexample:
  "only_reserved [(SStr ''test_name'', YInt 5),
                  (SStr ''config'', YDict [(SStr ''severity'', YStr ''warn'')])]
   \<and> process_test_list [int_named_reserved_decl] = Inl TypeError
   \<and> process_test_list [int_named_reserved_decl] \<noteq> Inr ([int_named_reserved_decl], [])
   \<and> only_reserved [(SStr ''test_name'', YDict [(SStr ''values'', YList [YInt 1])])]
   \<and> process_test_list [test_name_keyed_decl]
        = Inr ([test_name_keyed_migrated], [YStr ''test_name''])
   \<and> test_name_keyed_migrated \<noteq> test_name_keyed_decl"
  by (simp add: int_named_reserved_decl_def test_name_keyed_decl_def test_name_keyed_migrated_def
      process_test_list_def process_keyed_def process_single_def is_generic_test_str config_keys_def
      classify_int_five only_reserved_def reserved_keys_def)

theorem process_test_list_order_witness:
  "process_test_list [YStr ''not_null'', accepted_values_decl, YDict equality_items, reserved_only_decl]
     = Inr ([YStr ''not_null'', accepted_values_migrated, equality_migrated, reserved_only_decl],
            [YStr ''accepted_values'', YStr ''dbt_utils.equality''])
   \<and> length [YStr ''not_null'', accepted_values_migrated, equality_migrated, reserved_only_decl]
       = length [YStr ''not_null'', accepted_values_decl, YDict equality_items, reserved_only_decl]
   \<and> accepted_values_migrated \<noteq> accepted_values_decl"
proof -
  have e: "process_test_list [YStr ''not_null'', accepted_values_decl, YDict equality_items, reserved_only_decl]
     = Inr ([YStr ''not_null'', accepted_values_migrated, equality_migrated, reserved_only_decl],
            [YStr ''accepted_values'', YStr ''dbt_utils.equality''])"
    by (simp add: ex_defs process_test_list_def process_single_def process_keyed_def
        is_generic_test_str config_keys_def reserved_keys_def)
  from process_test_list_order [OF e] e show ?thesis
    by (simp add: accepted_values_migrated_def accepted_values_decl_def)
qed

section \<open>Running the migration twice\<close>

subsection \<open>Well-formedness and the restructurer\<close>

lemma wf_yaml_lookup:
  "wf_yaml (YDict kvs) \<Longrightarrow> map_of kvs k = Some v \<Longrightarrow> wf_yaml v"
  by (auto simp: list_all_iff dest: map_of_SomeD)

lemma list_all_snd_filter:
  "list_all P (map snd kvs) \<Longrightarrow> list_all P (map snd (filter Q kvs))"
  by (auto simp: list_all_iff)

lemma wf_migrate_test_dict:
  assumes "wf_yaml (YDict kvs)"
  shows "wf_yaml (migrate_test_dict (YDict kvs))"
proof (cases "needs_migration (YDict kvs)")
  case False
  with assms show ?thesis by simp
next
  case True
  from assms have d: "distinct (map fst kvs)" and w: "list_all wf_yaml (map snd kvs)"
    by simp_all
  have "SStr ''arguments'' \<notin> fst ` set (filter (\<lambda>(k, v). k \<in> SStr ` reserved_keys) kvs)"
    by (auto simp: reserved_keys_def)
  then show ?thesis
    unfolding migrate_test_dict_distinct [OF True d]
    using d w by (simp add: distinct_map_filter list_all_snd_filter)
qed

lemma migrate_test_dict_done:
  assumes "needs_migration (YDict kvs)" and "distinct (map fst kvs)"
  shows "\<not> needs_migration (migrate_test_dict (YDict kvs))"
  unfolding migrate_test_dict_distinct [OF assms] by simp

lemma migrate_test_dict_is_dict: "is_dict t \<Longrightarrow> is_dict (migrate_test_dict t)"
  by (cases t) (auto split: prod.splits)

subsection \<open>One entry, twice\<close>

lemma process_single_settled:
  assumes "wf_yaml cfg" and "process_single k cfg = Inr (e', ns)"
  shows "wf_yaml e' \<and> process_test e' = Inr (e', [])"
proof -
  from assms(2) obtain g where g: "is_generic_test (YScalar k) = Inr g"
    by (auto simp: process_single_def bindE_eq_Inr)
  show ?thesis
  proof (cases "g \<and> is_dict cfg \<and> needs_migration cfg")
    case True
    then obtain fs where cfg: "cfg = YDict fs" by (cases cfg) auto
    from True assms(2) g have e': "e' = YDict [(k, migrate_test_dict cfg)]"
      by (simp add: process_single_def)
    from assms(1) cfg have d: "distinct (map fst fs)" by simp
    from True have nm: "needs_migration (YDict fs)"
      unfolding cfg by blast
    have "\<not> needs_migration (migrate_test_dict cfg)"
      unfolding cfg by (rule migrate_test_dict_done [OF nm d])
    moreover have "wf_yaml (migrate_test_dict cfg)"
      using assms(1) cfg wf_migrate_test_dict by simp
    ultimately show ?thesis
      using g e' by (simp add: process_single_def del: migrate_test_dict.simps)
  next
    case False
    with assms(2) g have "e' = YDict [(k, cfg)]" "ns = []"
      by (auto simp: process_single_def split: if_splits)
    with assms show ?thesis by simp
  qed
qed

lemma process_keyed_settled:
  assumes "wf_yaml (YDict kvs)" and "length kvs \<noteq> 1" and "process_keyed kvs = Inr (e', ns)"
  shows "wf_yaml e' \<and> process_test e' = Inr (e', [])"
proof (cases "e' = YDict kvs \<and> ns = []")
  case True
  with assms show ?thesis by simp
next
  case False
  with assms(3) obtain tname where
    has: "SStr ''test_name'' \<in> set (map fst kvs)"
    and tn: "py_getitem (YDict kvs) ''test_name'' = Inr tname"
    and g: "is_generic_test tname = Inr True"
    and nm: "needs_migration (YDict kvs)"
    and e': "e' = migrate_test_dict (YDict kvs)"
    by (auto simp: process_keyed_def bindE_eq_Inr split: if_splits)
  from tn have look: "map_of kvs (SStr ''test_name'') = Some tname"
    by (auto split: option.splits)
  from assms(1) have d: "distinct (map fst kvs)" by simp
  have "is_reserved (SStr ''test_name'')" by (simp add: reserved_keys_def)
  from migrate_keeps_reserved [OF nm d this] obtain items where
    items: "migrate_test_dict (YDict kvs) = YDict items"
    and look': "map_of items (SStr ''test_name'') = Some tname"
    and args: "SStr ''arguments'' \<in> set (map fst items)"
    using look by auto
  from look' have has': "SStr ''test_name'' \<in> set (map fst items)"
    by (metis map_of_eq_None_iff option.distinct(1) set_map)
  have "length items \<noteq> 1"
  proof
    assume "length items = 1"
    then obtain kv where "items = [kv]" by (cases items) auto
    with has' args have "SStr ''test_name'' = fst kv" "SStr ''arguments'' = fst kv"
      by auto
    then have "SStr ''test_name'' = SStr ''arguments''" by simp
    then show False by simp
  qed
  moreover have "\<not> needs_migration (YDict items)"
    using args by simp
  moreover have "wf_yaml (YDict items)"
    using wf_migrate_test_dict [OF assms(1)] items by simp
  ultimately show ?thesis
    using has' look' g e' items by (simp add: process_keyed_def)
qed

lemma process_test_settled:
  assumes "wf_yaml e" and "process_test e = Inr (e', ns)"
  shows "wf_yaml e' \<and> process_test e' = Inr (e', [])"
proof (cases e)
  case (YScalar a)
  with assms show ?thesis by (cases a) auto
next
  case (YList xs)
  with assms show ?thesis by auto
next
  case (YDict kvs)
  show ?thesis
  proof (cases "length kvs = 1")
    case True
    then obtain k cfg where kvs: "kvs = [(k, cfg)]"
      by (cases kvs) auto
    with assms YDict have "wf_yaml cfg" "process_single k cfg = Inr (e', ns)"
      by simp_all
    then show ?thesis by (rule process_single_settled)
  next
    case False
    with assms YDict show ?thesis
      by (intro process_keyed_settled [of kvs]) simp_all
  qed
qed

subsection \<open>A loop, twice\<close>

lemma for_each_settled:
  assumes f: "\<And>x x' n. wf_yaml x \<Longrightarrow> f x = Inr (x', n) \<Longrightarrow> wf_yaml x' \<and> f x' = Inr (x', [])"
  shows "list_all wf_yaml xs \<Longrightarrow> for_each f xs = Inr (xs', ns)
         \<Longrightarrow> list_all wf_yaml xs' \<and> for_each f xs' = Inr (xs', [])"
proof (induction xs arbitrary: xs' ns)
  case Nil
  then show ?case by simp
next
  case (Cons x xs)
  from Cons.prems(2) obtain y n ys ns' where
    fx: "f x = Inr (y, n)" and rest: "for_each f xs = Inr (ys, ns')" and xs': "xs' = y # ys"
    by (elim for_each_ConsE)
  from Cons.prems(1) have "wf_yaml x" "list_all wf_yaml xs" by simp_all
  with f [OF _ fx] Cons.IH [OF _ rest] xs' show ?case by simp
qed

lemma process_test_list_settled:
  assumes "list_all wf_yaml ts" and "process_test_list ts = Inr (ts', ns)"
  shows "list_all wf_yaml ts' \<and> process_test_list ts' = Inr (ts', [])"
  using assms unfolding process_test_list_def
  by (rule for_each_settled [rotated]) (rule process_test_settled)

subsection \<open>Dicts\<close>

lemma map_of_dict_set: "map_of (dict_set kvs k v) = (map_of kvs)(k \<mapsto> v)"
  by (induction kvs) auto

lemma keys_dict_set: "fst ` set (dict_set kvs k v) = insert k (fst ` set kvs)"
proof -
  have "dom (map_of (dict_set kvs k v)) = insert k (dom (map_of kvs))"
    by (simp add: map_of_dict_set)
  then show ?thesis by (simp only: dom_map_of_conv_image_fst)
qed

lemma dict_set_same: "map_of kvs k = Some v \<Longrightarrow> dict_set kvs k v = kvs"
  by (induction kvs) (auto simp: image_iff split: if_splits)

lemma distinct_dict_set: "distinct (map fst kvs) \<Longrightarrow> distinct (map fst (dict_set kvs k v))"
  by (induction kvs) (auto simp: keys_dict_set)

lemma values_dict_set:
  "list_all P (map snd kvs) \<Longrightarrow> P v \<Longrightarrow> list_all P (map snd (dict_set kvs k v))"
  by (induction kvs) auto

lemma wf_dict_set: "wf_yaml (YDict kvs) \<Longrightarrow> wf_yaml v \<Longrightarrow> wf_yaml (YDict (dict_set kvs k v))"
  by (simp add: distinct_dict_set values_dict_set)

lemma key_in_iff: "k \<in> fst ` set kvs \<longleftrightarrow> map_of kvs k \<noteq> None"
  by (simp add: map_of_eq_None_iff)

subsection \<open>A step on one field\<close>

lemma stabilisesI:
  assumes "\<And>x x' names. wf_yaml x \<Longrightarrow> f x = Inr (x', names) \<Longrightarrow> wf_yaml x' \<and> P x'"
    and "\<And>x. P x \<Longrightarrow> f x = Inr (x, [])"
  shows "stabilises f P"
  unfolding stabilises_def using assms by blast

lemma at_field_dict:
  "at_field key h (YDict kvs) =
     (case map_of kvs (SStr key) of
        None \<Rightarrow> Inr (YDict kvs, [])
      | Some v \<Rightarrow> bindE (h v) (\<lambda>(v', names). Inr (YDict (dict_set kvs (SStr key) v'), names)))"
  by (auto simp: at_field_def key_in_iff split: option.splits)

lemma at_field_not_dict:
  "\<not> is_dict x \<Longrightarrow> at_field key h x = Inr (x, []) \<or> at_field key h x = Inl TypeError"
proof (cases x)
  case (YScalar a)
  then show ?thesis by (cases a) (auto simp: at_field_def)
qed (auto simp: at_field_def)

lemma at_field_not_dict_Inr:
  "\<not> is_dict x \<Longrightarrow> at_field key h x = Inr (x', names) \<Longrightarrow> x' = x \<and> names = []"
  using at_field_not_dict [of x key h] by auto

lemma stabilises_at_field:
  assumes "settled h"
  shows "stabilises (at_field key h) (stable_at (at_field key h))"
proof (rule stabilisesI)
  fix x x' names
  assume wf: "wf_yaml x" and run: "at_field key h x = Inr (x', names)"
  show "wf_yaml x' \<and> stable_at (at_field key h) x'"
  proof (cases x)
    case (YDict kvs)
    show ?thesis
    proof (cases "map_of kvs (SStr key)")
      case None
      with run YDict have "x' = x" "names = []"
        by (simp_all add: at_field_dict)
      with None YDict wf show ?thesis
        by (simp add: at_field_dict stable_at_def)
    next
      case (Some v)
      with run YDict obtain v' where hv: "h v = Inr (v', names)"
        and x': "x' = YDict (dict_set kvs (SStr key) v')"
        by (auto simp: at_field_dict bindE_eq_Inr)
      from wf have "wf_yaml (YDict kvs)" unfolding YDict .
      from wf_yaml_lookup [OF this Some] have "wf_yaml v" .
      with assms hv have v': "wf_yaml v'" "h v' = Inr (v', [])"
        unfolding settled_def by blast+
      from wf YDict v' have "wf_yaml x'"
        unfolding x' by (intro wf_dict_set) simp_all
      moreover have "at_field key h x' = Inr (x', [])"
        unfolding x' by (simp add: at_field_dict map_of_dict_set v' dict_set_same)
      ultimately show ?thesis by (simp add: stable_at_def)
    qed
  next
    case (YScalar a)
    with run wf at_field_not_dict_Inr [of x key h x' names] show ?thesis
      by (simp add: stable_at_def)
  next
    case (YList xs)
    with run wf at_field_not_dict_Inr [of x key h x' names] show ?thesis
      by (simp add: stable_at_def)
  qed
next
  fix x assume "stable_at (at_field key h) x"
  then show "at_field key h x = Inr (x, [])" by (simp add: stable_at_def)
qed

lemma preserves_at_field:
  assumes "key1 \<noteq> key2"
  shows "preserves (at_field key2 h2) (stable_at (at_field key1 h1))"
  unfolding preserves_def
proof (intro allI impI)
  fix x x' names
  assume run: "at_field key2 h2 x = Inr (x', names)" and st: "stable_at (at_field key1 h1) x"
  show "stable_at (at_field key1 h1) x'"
  proof (cases x)
    case (YDict kvs)
    show ?thesis
    proof (cases "map_of kvs (SStr key2)")
      case None
      with run YDict st show ?thesis by (simp add: at_field_dict)
    next
      case (Some v2)
      with run YDict obtain v2' where x': "x' = YDict (dict_set kvs (SStr key2) v2')"
        by (auto simp: at_field_dict bindE_eq_Inr)
      have look: "map_of (dict_set kvs (SStr key2) v2') (SStr key1) = map_of kvs (SStr key1)"
        using assms by (simp add: map_of_dict_set)
      show ?thesis
      proof (cases "map_of kvs (SStr key1)")
        case None
        with look show ?thesis unfolding x' stable_at_def by (simp add: at_field_dict)
      next
        case (Some v1)
        with st YDict obtain v1' where h1: "h1 v1 = Inr (v1', [])"
          and same: "dict_set kvs (SStr key1) v1' = kvs"
          by (auto simp: stable_at_def at_field_dict bindE_eq_Inr)
        from same have "map_of kvs (SStr key1) = Some v1'"
          by (metis map_of_dict_set fun_upd_same)
        with Some have "v1' = v1" by simp
        with h1 Some look show ?thesis
          unfolding x' stable_at_def by (simp add: at_field_dict dict_set_same)
      qed
    qed
  next
    case (YScalar a)
    with run st at_field_not_dict_Inr [of x key2 h2 x' names] show ?thesis by simp
  next
    case (YList xs)
    with run st at_field_not_dict_Inr [of x key2 h2 x' names] show ?thesis by simp
  qed
qed

subsection \<open>Steps in sequence\<close>

lemma and_then_Inr:
  "and_then f g x = Inr (x', names) \<longleftrightarrow>
     (\<exists>x1 n1 n2. f x = Inr (x1, n1) \<and> g x1 = Inr (x', n2) \<and> names = n1 @ n2)"
  by (auto simp: and_then_def bindE_eq_Inr)

lemma stabilises_and_then:
  assumes "stabilises f P" and "stabilises g Q" and "preserves g P"
  shows "stabilises (and_then f g) (\<lambda>x. P x \<and> Q x)"
proof (rule stabilisesI)
  fix x x' names
  assume wf: "wf_yaml x" and "and_then f g x = Inr (x', names)"
  then obtain x1 n1 n2 where f: "f x = Inr (x1, n1)" and g: "g x1 = Inr (x', n2)"
    by (auto simp: and_then_Inr)
  from assms(1) wf f have 1: "wf_yaml x1" "P x1" unfolding stabilises_def by blast+
  from assms(2) 1 g have 2: "wf_yaml x'" "Q x'" unfolding stabilises_def by blast+
  from assms(3) g 1 have "P x'" unfolding preserves_def by blast
  with 2 show "wf_yaml x' \<and> P x' \<and> Q x'" by simp
next
  fix x assume "P x \<and> Q x"
  with assms(1,2) have "f x = Inr (x, [])" "g x = Inr (x, [])"
    unfolding stabilises_def by blast+
  then show "and_then f g x = Inr (x, [])" by (simp add: and_then_def)
qed

lemma stabilises_settled: "stabilises f P \<Longrightarrow> settled f"
  unfolding stabilises_def settled_def by blast

lemma preserves_and_then: "preserves g P \<Longrightarrow> preserves h P \<Longrightarrow> preserves (and_then g h) P"
  unfolding preserves_def and_then_Inr by blast

lemma preserves_conj: "preserves g P \<Longrightarrow> preserves g Q \<Longrightarrow> preserves g (\<lambda>x. P x \<and> Q x)"
  unfolding preserves_def by blast

lemma preserves_skip: "preserves skip P"
  unfolding preserves_def skip_def by simp

lemma stabilises_skip: "stabilises skip (\<lambda>x. True)"
  unfolding stabilises_def skip_def by simp

subsection \<open>Inert on scalars\<close>

lemma inert_at_field: "inert (at_field key h)"
  unfolding inert_def
proof (intro allI impI)
  fix a x' names
  assume "at_field key h (YScalar a) = Inr (x', names)"
  from at_field_not_dict_Inr [OF _ this] show "x' = YScalar a \<and> names = []" by simp
qed

lemma inert_and_then: "inert f \<Longrightarrow> inert g \<Longrightarrow> inert (and_then f g)"
  unfolding inert_def and_then_Inr by (metis append_Nil)

lemma inert_skip: "inert skip"
  unfolding inert_def skip_def by simp

lemma for_each_inert:
  assumes "inert f"
  shows "for_each f (map YScalar ks) = Inr (ys, names) \<Longrightarrow> names = []"
proof (induction ks arbitrary: ys names)
  case Nil
  then show ?case by simp
next
  case (Cons k ks)
  from Cons.prems have "for_each f (YScalar k # map YScalar ks) = Inr (ys, names)"
    by simp
  then obtain y n ys' ns' where "f (YScalar k) = Inr (y, n)"
    and "for_each f (map YScalar ks) = Inr (ys', ns')" and "names = n @ ns'"
    by (rule for_each_ConsE)
  with assms Cons.IH show ?case unfolding inert_def by blast
qed

lemma iterate_settled:
  assumes "settled f" and "inert f"
  shows "settled (iterate f)"
  unfolding settled_def
proof (intro allI impI)
  fix v v' names
  assume wf: "wf_yaml v" and run: "iterate f v = Inr (v', names)"
  show "wf_yaml v' \<and> iterate f v' = Inr (v', [])"
  proof (cases v)
    case (YList xs)
    with run obtain xs' where r: "for_each f xs = Inr (xs', names)" and v': "v' = YList xs'"
      by (auto simp: bindE_eq_Inr)
    from wf YList have "list_all wf_yaml xs" by simp
    from for_each_settled [of f, OF _ this r] assms(1)
    have "list_all wf_yaml xs' \<and> for_each f xs' = Inr (xs', [])"
      unfolding settled_def by blast
    with v' show ?thesis by simp
  next
    case (YDict kvs)
    have m: "map (\<lambda>(k, v). YScalar k) kvs = map YScalar (map fst kvs)"
      by (induction kvs) auto
    from run YDict obtain ks' where r: "for_each f (map YScalar (map fst kvs)) = Inr (ks', names)"
      and v': "v' = v"
      by (auto simp: bindE_eq_Inr m)
    from for_each_inert [OF assms(2) r] have "names = []" .
    with run v' wf show ?thesis by simp
  next
    case (YScalar a)
    show ?thesis
    proof (cases a)
      case (SStr s)
      have m: "map (\<lambda>c. YStr [c]) s = map YScalar (map (\<lambda>c. SStr [c]) s)"
        by simp
      from run YScalar SStr obtain cs' where
        r: "for_each f (map YScalar (map (\<lambda>c. SStr [c]) s)) = Inr (cs', names)" and v': "v' = v"
        unfolding m [symmetric] by (auto simp: bindE_eq_Inr)
      from for_each_inert [OF assms(2) r] have "names = []" .
      with run v' wf show ?thesis by simp
    qed (use run YScalar in auto)
  qed
qed

lemma on_list_settled:
  assumes "\<And>xs xs' names. list_all wf_yaml xs \<Longrightarrow> body xs = Inr (xs', names)
             \<Longrightarrow> list_all wf_yaml xs' \<and> body xs' = Inr (xs', [])"
  shows "settled (on_list body)"
  unfolding settled_def
proof (intro allI impI)
  fix v v' names
  assume wf: "wf_yaml v" and run: "on_list body v = Inr (v', names)"
  show "wf_yaml v' \<and> on_list body v' = Inr (v', [])"
  proof (cases v)
    case (YList xs)
    with run obtain xs' where r: "body xs = Inr (xs', names)" and v': "v' = YList xs'"
      by (auto simp: on_list_def bindE_eq_Inr)
    from wf YList assms [OF _ r] v' show ?thesis by (simp add: on_list_def)
  qed (use run wf in \<open>auto simp: on_list_def\<close>)
qed

subsection \<open>The steps of the walker as steps on one field\<close>

lemma py_in_raises: "py_in key x = Inl e \<Longrightarrow> py_in key' x = Inl e"
proof (cases x)
  case (YScalar a)
  assume "py_in key x = Inl e"
  with YScalar show ?thesis by (cases a) auto
qed auto

lemma migrate_tests_field_at_field:
  "migrate_tests_field test_key = at_field test_key (on_list process_test_list)"
proof
  fix x
  show "migrate_tests_field test_key x = at_field test_key (on_list process_test_list) x"
  proof (cases x)
    case (YDict kvs)
    show ?thesis
    proof (cases "map_of kvs (SStr test_key)")
      case None
      with YDict show ?thesis
        by (simp add: migrate_tests_field_def at_field_dict key_in_iff)
    next
      case (Some v)
      show ?thesis
      proof (cases v)
        case (YList tests)
        with YDict Some show ?thesis
          by (cases "process_test_list tests")
            (auto simp: migrate_tests_field_def at_field_dict key_in_iff on_list_def)
      next
        case (YScalar a)
        with YDict Some show ?thesis
          by (simp add: migrate_tests_field_def at_field_dict key_in_iff on_list_def dict_set_same)
      next
        case inner: (YDict fs)
        with YDict Some show ?thesis
          by (simp add: migrate_tests_field_def at_field_dict key_in_iff on_list_def dict_set_same)
      qed
    qed
  next
    case (YScalar a)
    then show ?thesis
      by (cases a) (simp_all add: migrate_tests_field_def at_field_def)
  next
    case (YList xs)
    then show ?thesis
      by (simp add: migrate_tests_field_def at_field_def)
  qed
qed

lemma process_columns_at_field:
  "process_columns = at_field ''columns'' (on_list (for_each process_tests))"
proof
  fix x
  show "process_columns x = at_field ''columns'' (on_list (for_each process_tests)) x"
  proof (cases x)
    case (YDict kvs)
    show ?thesis
    proof (cases "map_of kvs (SStr ''columns'')")
      case None
      with YDict show ?thesis
        by (simp add: process_columns_def at_field_dict key_in_iff)
    next
      case (Some v)
      show ?thesis
      proof (cases v)
        case (YList cols)
        with YDict Some show ?thesis
          by (cases "for_each process_tests cols")
            (auto simp: process_columns_def at_field_dict key_in_iff on_list_def)
      next
        case (YScalar a)
        with YDict Some show ?thesis
          by (simp add: process_columns_def at_field_dict key_in_iff on_list_def dict_set_same)
      next
        case inner: (YDict fs)
        with YDict Some show ?thesis
          by (simp add: process_columns_def at_field_dict key_in_iff on_list_def dict_set_same)
      qed
    qed
  next
    case (YScalar a)
    then show ?thesis
      by (cases a) (simp_all add: process_columns_def at_field_def)
  next
    case (YList xs)
    then show ?thesis
      by (simp add: process_columns_def at_field_def)
  qed
qed

lemma process_tables_at_field:
  "process_tables resource_type =
     (if resource_type = ''sources'' then at_field ''tables'' (iterate process_table) else skip)"
  by (rule ext) (simp add: process_tables_def at_field_def skip_def)

lemma process_resource_type_at_field:
  "process_resource_type resource_type =
     at_field resource_type (iterate (process_resource resource_type))"
  by (rule ext) (simp add: process_resource_type_def at_field_def)

lemma process_tests_and_then:
  "process_tests = and_then (migrate_tests_field ''tests'') (migrate_tests_field ''data_tests'')"
proof
  fix x
  show "process_tests x =
          and_then (migrate_tests_field ''tests'') (migrate_tests_field ''data_tests'') x"
  proof (cases "py_in ''tests'' x")
    case (Inl e)
    then show ?thesis
      by (simp add: process_tests_def and_then_def migrate_tests_field_def)
  next
    case a: (Inr a)
    show ?thesis
    proof (cases a)
      case True
      with a show ?thesis by (simp add: process_tests_def)
    next
      case False
      show ?thesis
      proof (cases "py_in ''data_tests'' x")
        case (Inl e)
        from py_in_raises [OF this, of "''tests''"] a show ?thesis by simp
      next
        case b: (Inr b)
        with a False show ?thesis
          by (cases b) (simp_all add: process_tests_def and_then_def migrate_tests_field_def)
      qed
    qed
  qed
qed

subsection \<open>Every step of the walker settles\<close>

lemma settled_tests_value: "settled (on_list process_test_list)"
  by (rule on_list_settled) (rule process_test_list_settled)

lemma stabilises_process_tests:
  "stabilises process_tests
     (\<lambda>x. stable_at (tests_step ''tests'') x \<and> stable_at (tests_step ''data_tests'') x)"
  unfolding process_tests_and_then migrate_tests_field_at_field
  by (intro stabilises_and_then stabilises_at_field settled_tests_value preserves_at_field) simp

lemma preserves_process_tests:
  assumes "key \<noteq> ''tests''" and "key \<noteq> ''data_tests''"
  shows "preserves process_tests (stable_at (at_field key h))"
  unfolding process_tests_and_then migrate_tests_field_at_field
  using assms by (intro preserves_and_then preserves_at_field)

lemma inert_process_tests: "inert process_tests"
  unfolding process_tests_and_then migrate_tests_field_at_field
  by (intro inert_and_then inert_at_field)

lemma settled_columns_value: "settled (on_list (for_each process_tests))"
proof (rule on_list_settled)
  fix xs xs' names
  assume "list_all wf_yaml xs" and "for_each process_tests xs = Inr (xs', names)"
  then show "list_all wf_yaml xs' \<and> for_each process_tests xs' = Inr (xs', [])"
  proof (rule for_each_settled [rotated])
    fix x x' n
    assume "wf_yaml x" and "process_tests x = Inr (x', n)"
    with stabilises_settled [OF stabilises_process_tests]
    show "wf_yaml x' \<and> process_tests x' = Inr (x', [])"
      unfolding settled_def by blast
  qed
qed

lemma stabilises_process_columns: "stabilises process_columns (stable_at columns_step)"
  unfolding process_columns_at_field
  by (intro stabilises_at_field settled_columns_value)

lemma preserves_process_columns:
  assumes "key \<noteq> ''columns''"
  shows "preserves process_columns (stable_at (at_field key h))"
  unfolding process_columns_at_field
  using assms by (intro preserves_at_field)

lemma stabilises_process_table:
  "stabilises process_table
     (\<lambda>x. (stable_at (tests_step ''tests'') x \<and> stable_at (tests_step ''data_tests'') x)
          \<and> stable_at columns_step x)"
  unfolding process_table_def
  by (intro stabilises_and_then stabilises_process_tests stabilises_process_columns
      preserves_conj preserves_process_columns) simp_all

lemma inert_process_table: "inert process_table"
  unfolding process_table_def process_columns_at_field
  by (intro inert_and_then inert_process_tests inert_at_field)

lemma settled_tables_value: "settled (iterate process_table)"
  by (intro iterate_settled stabilises_settled [OF stabilises_process_table] inert_process_table)

lemma stabilises_process_tables:
  "stabilises (process_tables resource_type)
     (\<lambda>x. resource_type = ''sources'' \<longrightarrow> stable_at tables_step x)"
proof (cases "resource_type = ''sources''")
  case True
  with stabilises_at_field [OF settled_tables_value, of "''tables''"] show ?thesis
    by (simp add: process_tables_at_field)
next
  case False
  with stabilises_skip show ?thesis
    by (simp add: process_tables_at_field)
qed

lemma preserves_process_tables:
  assumes "key \<noteq> ''tables''"
  shows "preserves (process_tables resource_type) (stable_at (at_field key h))"
  using assms preserves_at_field [of key "''tables''"] preserves_skip
  by (simp add: process_tables_at_field)

lemma inert_process_tables: "inert (process_tables resource_type)"
  using inert_at_field inert_skip by (simp add: process_tables_at_field)

lemma stabilises_process_resource:
  "stabilises (process_resource resource_type)
     (\<lambda>x. (stable_at (tests_step ''tests'') x \<and> stable_at (tests_step ''data_tests'') x)
          \<and> stable_at columns_step x
          \<and> (resource_type = ''sources'' \<longrightarrow> stable_at tables_step x))"
  unfolding process_resource_def
  by (intro stabilises_and_then stabilises_process_tests stabilises_process_columns
      stabilises_process_tables preserves_and_then preserves_conj
      preserves_process_columns preserves_process_tables) simp_all

lemma inert_process_resource: "inert (process_resource resource_type)"
  unfolding process_resource_def process_columns_at_field
  by (intro inert_and_then inert_process_tests inert_at_field inert_process_tables)

lemma settled_resources_value: "settled (iterate (process_resource resource_type))"
  by (intro iterate_settled stabilises_settled [OF stabilises_process_resource]
      inert_process_resource)

lemma stabilises_process_yaml_content:
  "stabilises process_yaml_content
     (\<lambda>x. stable_at (resources_step ''models'') x
          \<and> stable_at (resources_step ''sources'') x
          \<and> stable_at (resources_step ''seeds'') x
          \<and> stable_at (resources_step ''snapshots'') x)"
  unfolding process_yaml_content_def process_resource_type_at_field
  by (intro stabilises_and_then stabilises_at_field settled_resources_value
      preserves_and_then preserves_at_field) simp_all

lemma process_yaml_content_settled:
  assumes "wf_yaml content" and "process_yaml_content content = Inr (content', names)"
  shows "wf_yaml content' \<and> process_yaml_content content' = Inr (content', [])"
  using stabilises_settled [OF stabilises_process_yaml_content] assms
  unfolding settled_def by blast

subsection \<open>The example document, and the claim\<close>

lemmas walker_defs = process_yaml_content_def and_then_def process_resource_type_def
  process_resource_def process_tables_def process_table_def process_columns_def
  process_tests_def migrate_tests_field_def process_test_list_def process_single_def
  process_keyed_def is_generic_test_str config_keys_def reserved_keys_def

lemma process_test_schema:
  "process_yaml_content test_schema = Inr (test_schema_migrated, test_schema_names)"
  by (simp add: test_schema_def test_schema_migrated_def test_schema_names_def walker_defs)

lemma process_test_schema_migrated:
  "process_yaml_content test_schema_migrated = Inr (test_schema_migrated, [])"
  by (simp add: test_schema_migrated_def walker_defs)

lemma wf_test_schema: "wf_yaml test_schema"
  by (simp add: test_schema_def)

lemma holds_arguments_untouched:
  assumes "holds_arguments e" and "process_test e = Inr (e', n)"
  shows "e' = e \<and> n = []"
proof -
  from assms(1) obtain kvs where e: "e = YDict kvs"
    by (cases e) (auto simp: holds_arguments_def)
  show ?thesis
  proof (cases "length kvs = 1")
    case True
    then obtain k cfg where kvs: "kvs = [(k, cfg)]"
      by (cases kvs) auto
    from assms(2) e kvs obtain g where g: "is_generic_test (YScalar k) = Inr g"
      by (auto simp: process_single_def bindE_eq_Inr)
    then obtain s where k: "k = SStr s"
      by (auto dest: is_generic_test_Inr)
    from assms(1) e kvs have "k = SStr ''arguments'' \<or> \<not> needs_migration cfg"
      by (cases cfg) (auto simp: holds_arguments_def)
    then have "\<not> g \<or> \<not> needs_migration cfg"
      using g k by (auto simp: is_generic_test_str config_keys_def)
    with assms(2) e kvs g show ?thesis
      by (auto simp: process_single_def split: if_splits)
  next
    case False
    with assms(1) e have "SStr ''arguments'' \<in> set (map fst kvs)"
      by (simp add: holds_arguments_def)
    then have "\<not> needs_migration (YDict kvs)" by simp
    with assms(2) e False show ?thesis
      by (auto simp: process_keyed_def bindE_eq_Inr split: if_splits)
  qed
qed

lemma holds_arguments_process_test:
  assumes "holds_arguments e"
  shows "process_test e = (if string_named e then Inr (e, []) else Inl TypeError)"
proof -
  from assms obtain kvs where e: "e = YDict kvs"
    by (cases e) (auto simp: holds_arguments_def)
  have ret: "process_test e = Inr r \<Longrightarrow> process_test e = Inr (e, [])" for r
    using holds_arguments_untouched [OF assms, of "fst r" "snd r"] by (cases r) simp
  show ?thesis
  proof (cases "length kvs = 1")
    case True
    then obtain k cfg where kvs: "kvs = [(k, cfg)]"
      by (cases kvs) auto
    show ?thesis
    proof (cases k)
      case (SStr s)
      with e kvs have "\<exists>r. process_test e = Inr r"
        by (simp add: process_single_def is_generic_test_str)
      then have "process_test e = Inr (e, [])" using ret by blast
      moreover have "string_named e" using e kvs SStr by (simp add: string_named_def)
      ultimately show ?thesis by simp
    next
      case SNull
      then have "is_generic_test (YScalar k) = Inl TypeError" by (simp add: is_generic_test_raises)
      with e kvs SNull show ?thesis by (simp add: process_single_def string_named_def)
    next
      case (SBool b)
      then have "is_generic_test (YScalar k) = Inl TypeError" by (simp add: is_generic_test_raises)
      with e kvs SBool show ?thesis by (simp add: process_single_def string_named_def)
    next
      case (SInt i)
      then have "is_generic_test (YScalar k) = Inl TypeError" by (simp add: is_generic_test_raises)
      with e kvs SInt show ?thesis by (simp add: process_single_def string_named_def)
    qed
  next
    case False
    then have sn: "string_named e \<longleftrightarrow>
        (case map_of kvs (SStr ''test_name'') of None \<Rightarrow> True
         | Some (YScalar (SStr s)) \<Rightarrow> True | Some v \<Rightarrow> False)"
      using e by (cases kvs rule: list.exhaust; simp add: string_named_def split: list.splits prod.splits)
    show ?thesis
    proof (cases "map_of kvs (SStr ''test_name'')")
      case None
      then have "SStr ''test_name'' \<notin> set (map fst kvs)"
        by (simp add: map_of_eq_None_iff)
      with e False sn None show ?thesis by (simp add: process_keyed_def)
    next
      case (Some v)
      then have mem: "SStr ''test_name'' \<in> set (map fst kvs)"
        by (metis map_of_eq_None_iff option.distinct(1) set_map)
      show ?thesis
      proof (cases "\<exists>s. v = YStr s")
        case True
        then obtain s where v: "v = YStr s" by blast
        with e False Some mem have "\<exists>r. process_test e = Inr r"
          by (simp add: process_keyed_def is_generic_test_str)
        then have "process_test e = Inr (e, [])" using ret by blast
        moreover have "string_named e" using sn Some v by simp
        ultimately show ?thesis by simp
      next
        case nostr: False
        then have "is_generic_test v = Inl TypeError" by (simp add: is_generic_test_raises)
        with e False Some mem have "process_test e = Inl TypeError"
          by (simp add: process_keyed_def)
        moreover have "\<not> string_named e" using sn Some nostr
          by (auto split: yaml.splits scalar.splits)
        ultimately show ?thesis by simp
      qed
    qed
  qed
qed

text \<open>
  C4, amended. On a well-formed document, whenever \<^verbatim>\<open>process_yaml_content\<close> returns,
  running it again on the document it returned returns that document unchanged and
  records no name. And for an entry of a check list that already holds \<open>arguments\<close>, in a
  list whose other entries are processed without an exception: when the name position
  of the entry holds a string, \<^verbatim>\<open>process_test_list\<close> returns, the entry stands unchanged
  at its place in the output, and the names recorded are those of the other entries;
  when the name position holds anything else, \<^verbatim>\<open>process_test_list\<close> raises \<^verbatim>\<open>TypeError\<close>.
\<close>

theorem migration_idempotent:
  "(wf_yaml content \<longrightarrow> process_yaml_content content = Inr (content', names)
      \<longrightarrow> process_yaml_content content' = Inr (content', []))
   \<and> (holds_arguments e \<longrightarrow> process_test_list before = Inr (b', nb)
      \<longrightarrow> process_test_list after = Inr (a', na)
      \<longrightarrow> process_test_list (before @ e # after)
            = (if string_named e then Inr (b' @ e # a', nb @ na) else Inl TypeError))"
proof (intro conjI impI)
  assume "wf_yaml content" and "process_yaml_content content = Inr (content', names)"
  then show "process_yaml_content content' = Inr (content', [])"
    using process_yaml_content_settled by blast
next
  assume h: "holds_arguments e" and b: "process_test_list before = Inr (b', nb)"
    and a: "process_test_list after = Inr (a', na)"
  show "process_test_list (before @ e # after)
            = (if string_named e then Inr (b' @ e # a', nb @ na) else Inl TypeError)"
    by (simp add: process_test_list_insert [OF b a] holds_arguments_process_test [OF h])
qed

theorem migration_idempotent_witness:
  "wf_yaml test_schema
   \<and> process_yaml_content test_schema = Inr (test_schema_migrated, test_schema_names)
   \<and> process_yaml_content test_schema_migrated = Inr (test_schema_migrated, [])
   \<and> holds_arguments accepted_values_migrated
   \<and> string_named accepted_values_migrated
   \<and> process_test_list [accepted_values_decl]
        = Inr ([accepted_values_migrated], [YStr ''accepted_values''])
   \<and> process_test_list [YStr ''not_null''] = Inr ([YStr ''not_null''], [])
   \<and> process_test_list ([accepted_values_decl] @ accepted_values_migrated # [YStr ''not_null''])
       = Inr ([accepted_values_migrated] @ accepted_values_migrated # [YStr ''not_null''],
              [YStr ''accepted_values''] @ [])"
proof -
  have h: "holds_arguments accepted_values_migrated"
    by (simp add: holds_arguments_def accepted_values_migrated_def)
  have s: "string_named accepted_values_migrated"
    by (simp add: string_named_def accepted_values_migrated_def)
  from migration_idempotent [of test_schema test_schema_migrated test_schema_names
      accepted_values_migrated "[accepted_values_decl]" "[accepted_values_migrated]"
      "[YStr ''accepted_values'']" "[YStr ''not_null'']" "[YStr ''not_null'']" "[]"]
    wf_test_schema process_test_schema h s process_accepted_values process_not_null
  show ?thesis by simp
qed

text \<open>
  C4 as stated fails on a declaration that holds \<open>arguments\<close> and has no string in its
  name position: on \<^verbatim>\<open>{test_name: 5, arguments: {values: [1]}}\<close> and on
  \<^verbatim>\<open>{5: {arguments: {values: [1]}}}\<close> the classifier raises \<^verbatim>\<open>TypeError\<close>, so the
  declaration is not passed through.
\<close>

theorem migration_idempotent_counterexample:
  "holds_arguments int_named_migrated_decl
   \<and> process_test_list [int_named_migrated_decl] = Inl TypeError
   \<and> process_test_list [int_named_migrated_decl] \<noteq> Inr ([int_named_migrated_decl], [])
   \<and> holds_arguments int_keyed_migrated_decl
   \<and> process_test_list [int_keyed_migrated_decl] = Inl TypeError
   \<and> process_test_list [int_keyed_migrated_decl] \<noteq> Inr ([int_keyed_migrated_decl], [])"
  by (simp add: int_named_migrated_decl_def int_keyed_migrated_decl_def holds_arguments_def
      process_test_list_def process_keyed_def process_single_def classify_int_five)

section \<open>Properties of the file driver and the run\<close>

subsection \<open>Printing\<close>

lemma print_Inr: "print m w = Inr w' \<Longrightarrow> w' = printed m w"
  by (auto simp: print_def split: option.splits)

lemma fields_printed [simp]:
  "contents (printed m w) = contents w" "refuses (printed m w) = refuses w"
  "console (printed m w) = console w @ [m]"
  by (simp_all add: printed_def)

lemma contents_handle_exception [simp]:
  "contents (snd (snd (handle_exception path e self w))) = contents w"
  "fst (snd (handle_exception path e self w)) = self"
  by (auto simp: handle_exception_def print_def split: option.splits)

lemma contents_print_all [simp]: "contents (snd (print_all ms w)) = contents w"
  by (induction ms arbitrary: w) (auto simp: print_def split: option.splits)

subsection \<open>Simulate-only mode\<close>

lemma migrate_file_contents_dry:
  "dry_run self \<Longrightarrow> contents (snd (snd (migrate_file lib self w path))) = contents w"
  by (auto simp: migrate_file_def Let_def print_def
      split: option.splits load_result.splits sum.splits prod.splits)

lemma migrate_file_dry_run_kept:
  "dry_run (fst (snd (migrate_file lib self w path))) = dry_run self"
  by (auto simp: migrate_file_def Let_def
      split: option.splits load_result.splits sum.splits prod.splits write_outcome.splits)

lemma migrate_file_report_same:
  "migrations_performed (fst (snd (migrate_file lib (self\<lparr>dry_run := True\<rparr>) w path)))
     = (if \<not> dry_run self then migrations_performed (fst (snd (migrate_file lib self w path)))
        else migrations_performed (fst (snd (migrate_file lib (self\<lparr>dry_run := False\<rparr>) w path))))"
  by (auto simp: migrate_file_def Let_def
      split: option.splits load_result.splits sum.splits prod.splits write_outcome.splits)

lemma migrate_files_contents_dry:
  "dry_run self \<Longrightarrow> contents (snd (snd (migrate_files lib files n self w))) = contents w"
proof (induction files arbitrary: n self w)
  case Nil
  then show ?case by simp
next
  case (Cons f files)
  obtain b self' w' where r: "migrate_file lib self w f = (b, self', w')"
    by (cases "migrate_file lib self w f")
  with migrate_file_dry_run_kept [of lib self w f] migrate_file_contents_dry [of self lib w f] Cons.prems
  have "dry_run self'" "contents w' = contents w" by simp_all
  with Cons.IH [of self' _ w'] r show ?case by (cases b) simp_all
qed

lemma run_migration_contents_dry:
  assumes "dry_run self"
  shows "contents (snd (snd (run_migration lib self w))) = contents w"
proof (cases "find_yaml_files self w = []")
  case True
  then show ?thesis
    by (simp add: run_migration_def print_def printed_def split: option.splits)
next
  case False
  let ?ms = "[FoundFiles (length (find_yaml_files self w)), ModeLine (dry_run self), Blank]"
  obtain r0 w0 where p0: "print_all ?ms w = (r0, w0)"
    by (cases "print_all ?ms w")
  from contents_print_all [of ?ms w] p0 have c0: "contents w0 = contents w" by simp
  show ?thesis
  proof (cases r0)
    case (Some e)
    with False p0 c0 show ?thesis by (simp add: run_migration_def Let_def)
  next
    case None
    obtain c self' w' where r: "migrate_files lib (find_yaml_files self w) 0 self w0 = (c, self', w')"
      by (cases "migrate_files lib (find_yaml_files self w) 0 self w0")
    from migrate_files_contents_dry [OF assms, of lib "find_yaml_files self w" 0 w0] r c0
    have c1: "contents w' = contents w" by simp
    show ?thesis
    proof (cases c)
      case (Inl e)
      with False p0 None r c1 show ?thesis by (simp add: run_migration_def Let_def)
    next
      case (Inr k)
      let ?ms' = "[Blank, MigrationComplete, FilesProcessed (length (find_yaml_files self w)),
                   FilesMigrated k, TotalTestMigrations (length (migrations_performed self'))]
                  @ (if migrations_performed self' \<noteq> []
                     then MigrationsPerformed #
                          map (\<lambda>m. MigrationLine (file_path m) (test_name m))
                            (migrations_performed self')
                     else [])"
      obtain r2 w2 where p2: "print_all ?ms' w' = (r2, w2)"
        by (cases "print_all ?ms' w'")
      from contents_print_all [of ?ms' w'] p2 c1 have "contents w2 = contents w" by simp
      with False p0 None r Inr p2 show ?thesis
        by (simp add: run_migration_def Let_def)
    qed
  qed
qed

text \<open>
  C8. With \<open>dry_run\<close> on, \<^verbatim>\<open>migrate_file\<close> leaves the contents of every file as they
  were, whatever the document holds and whatever raises, and so does the whole run. The
  list \<open>migrations_performed\<close> after \<^verbatim>\<open>migrate_file\<close> is the same with \<open>dry_run\<close> on and
  off: the entry (path, joined names, names) is appended before the flag is read.
\<close>

theorem dry_run_never_writes:
  "(dry_run self \<longrightarrow> contents (snd (snd (migrate_file lib self w path))) = contents w)
   \<and> (dry_run self \<longrightarrow> contents (snd (snd (run_migration lib self w))) = contents w)
   \<and> migrations_performed (fst (snd (migrate_file lib (self\<lparr>dry_run := True\<rparr>) w path)))
       = migrations_performed (fst (snd (migrate_file lib (self\<lparr>dry_run := False\<rparr>) w path)))"
proof (intro conjI impI)
  assume "dry_run self"
  then show "contents (snd (snd (migrate_file lib self w path))) = contents w"
    by (rule migrate_file_contents_dry)
next
  assume "dry_run self"
  then show "contents (snd (snd (run_migration lib self w))) = contents w"
    by (rule run_migration_contents_dry)
next
  show "migrations_performed (fst (snd (migrate_file lib (self\<lparr>dry_run := True\<rparr>) w path)))
       = migrations_performed (fst (snd (migrate_file lib (self\<lparr>dry_run := False\<rparr>) w path)))"
    using migrate_file_report_same [of lib "self\<lparr>dry_run := False\<rparr>" w path] by simp
qed

subsection \<open>A console that prints every line\<close>


lemma console_accepts_kept [simp]:
  "console_accepts (printed m w) = console_accepts w"
  "console_accepts (w\<lparr>contents := c\<rparr>) = console_accepts w"
  by (simp_all add: console_accepts_def)











subsection \<open>The example run\<close>

lemma process_bad_schema: "process_yaml_content bad_schema = Inl TypeError"
  by (simp add: bad_schema_def ex_defs walker_defs classify_int_five)

lemma process_int_keyed_schema: "process_yaml_content int_keyed_schema = Inl TypeError"
  by (simp add: int_keyed_schema_def ex_defs walker_defs classify_int_five)

lemma truthy_examples: "truthy test_schema" "truthy bad_schema" "truthy seeds_schema"
  by (simp_all add: test_schema_def bad_schema_def seeds_schema_def)

lemma process_seeds_schema:
  "process_yaml_content seeds_schema = Inr (seeds_migrated, [YStr ''accepted_values''])"
  by (simp add: seeds_schema_def seeds_migrated_def ex_defs walker_defs)

lemma dump_examples:
  "dump example_lib test_schema_migrated = Inr ''migrated''"
  "dump example_lib seeds_migrated = Inl OtherError"
  by (simp_all add: example_lib_def test_schema_migrated_def seeds_migrated_def)

lemma load_examples:
  "safe_load example_lib ''good'' = Loaded test_schema"
  "safe_load example_lib ''bad'' = Loaded bad_schema"
  "safe_load example_lib ''seeds'' = Loaded seeds_schema"
  "safe_load example_lib ''deep'' = LoadRaises OtherError"
  "safe_load example_lib ''{'' = YAMLError"
  "join_names example_lib names = ''names''"
  by (simp_all add: example_lib_def)


lemmas file_defs = migrate_file_def handle_exception_def print_def printed_def
  example_world_def example_contents_def example_migrator_def
  example_migration_def Let_def truthy_examples process_test_schema process_bad_schema
  process_seeds_schema dump_examples load_examples test_schema_names_def

lemmas run_defs = main_def run_migration_def find_yaml_files_def example_files_def






lemma ex_bad:
  "contents example_world ''models/bad.yml'' = Inr ''bad''"
  "migrate_file example_lib (example_migrator False) example_world ''models/bad.yml''
     = (Inr False, example_migrator False,
        printed (ErrorProcessing ''models/bad.yml'' TypeError) example_world)"
  by (simp_all add: file_defs)




lemma ex_schema:
  "migrate_file example_lib (example_migrator False) example_world ''models/schema.yml''
     = (Inr True,
        (example_migrator False)\<lparr>migrations_performed := [example_migration ''models/schema.yml'']\<rparr>,
        printed (Migrated False 4 ''models/schema.yml'')
          (example_world\<lparr>contents := (contents example_world)(''models/schema.yml'' := Inr ''migrated'')\<rparr>))"
  "migrate_file example_lib (example_migrator True) example_world ''models/schema.yml''
     = (Inr True,
        (example_migrator True)\<lparr>migrations_performed := [example_migration ''models/schema.yml'']\<rparr>,
        printed (Migrated True 4 ''models/schema.yml'') example_world)"
  by (simp_all add: file_defs)


lemma ex_main_dry:
  "contents (snd (snd (run_migration example_lib (example_migrator True) example_world)))
     = contents example_world"
  by (simp add: run_defs file_defs)



theorem dry_run_never_writes_witness:
  "dry_run (example_migrator True)
   \<and> fst (migrate_file example_lib (example_migrator True) example_world ''models/schema.yml'')
       = Inr True
   \<and> contents (snd (snd (migrate_file example_lib (example_migrator True) example_world
                             ''models/schema.yml''))) = contents example_world
   \<and> contents (snd (snd (run_migration example_lib (example_migrator True) example_world)))
       = contents example_world
   \<and> migrations_performed (fst (snd (migrate_file example_lib (example_migrator True) example_world
                                        ''models/schema.yml'')))
       = [example_migration ''models/schema.yml'']
   \<and> migrations_performed (fst (snd (migrate_file example_lib (example_migrator False) example_world
                                        ''models/schema.yml'')))
       = [example_migration ''models/schema.yml'']
   \<and> contents (snd (snd (migrate_file example_lib (example_migrator False) example_world
                             ''models/schema.yml''))) ''models/schema.yml'' = Inr ''migrated''"
proof -
  have d: "dry_run (example_migrator True)"
    and u: "(example_migrator True)\<lparr>dry_run := True\<rparr> = example_migrator True"
      "(example_migrator True)\<lparr>dry_run := False\<rparr> = example_migrator False"
    by (simp_all add: example_migrator_def)
  from dry_run_never_writes [of "example_migrator True" example_lib example_world
      "''models/schema.yml''"] d u ex_schema
  show ?thesis by simp
qed



text \<open>
  C10. In the name position of a declaration a scalar that is not a string makes
  \<^verbatim>\<open>'.' in test_key\<close> and with it \<^verbatim>\<open>is_generic_test\<close> raise \<^verbatim>\<open>TypeError\<close>. For the two
  example documents, one with \<open>test_name\<close> 5 in a multi-key declaration and one with a
  declaration keyed by 5, each next to a declaration that alone would be migrated:
  \<^verbatim>\<open>process_yaml_content\<close> raises and the exception goes to the handler that ends
  \<^verbatim>\<open>migrate_file\<close>, which prints the error and returns \<open>False\<close> (when that line can be
  printed); nothing is recorded and the file is left as it was.
\<close>

theorem non_string_name_aborts_file:
  assumes "contents w path = Inr src" and "safe_load lib src = Loaded doc"
    and "doc = bad_schema \<or> doc = int_keyed_schema"
  shows "((\<forall>s. a \<noteq> SStr s) \<longrightarrow>
            py_in ''.'' (YScalar a) = Inl TypeError \<and> is_generic_test (YScalar a) = Inl TypeError)
         \<and> process_test_list [accepted_values_decl]
              = Inr ([accepted_values_migrated], [YStr ''accepted_values''])
         \<and> process_test_list [accepted_values_decl, int_named_decl] = Inl TypeError
         \<and> process_yaml_content doc = Inl TypeError
         \<and> migrate_file lib self w path = handle_exception path TypeError self w
         \<and> (refuses w (ErrorProcessing path TypeError) = None \<longrightarrow>
              migrate_file lib self w path
                = (Inr False, self, printed (ErrorProcessing path TypeError) w))
         \<and> fst (snd (migrate_file lib self w path)) = self
         \<and> contents (snd (snd (migrate_file lib self w path))) = contents w"
proof -
  have 1: "(\<forall>s. a \<noteq> SStr s) \<longrightarrow>
            py_in ''.'' (YScalar a) = Inl TypeError \<and> is_generic_test (YScalar a) = Inl TypeError"
    by (cases a) (auto simp: is_generic_test_def)
  have 2: "process_test_list [accepted_values_decl, int_named_decl] = Inl TypeError"
    by (simp add: ex_defs process_test_list_def process_single_def process_keyed_def
        is_generic_test_str config_keys_def reserved_keys_def classify_int_five)
  from assms(3) have 3: "process_yaml_content doc = Inl TypeError"
    using process_bad_schema process_int_keyed_schema by blast
  from assms(3) have "truthy doc"
    by (auto simp: bad_schema_def int_keyed_schema_def)
  with assms(1,2) 3 have 4:
    "migrate_file lib self w path = handle_exception path TypeError self w"
    by (simp add: migrate_file_def)
  have 5: "refuses w (ErrorProcessing path TypeError) = None \<longrightarrow>
             handle_exception path TypeError self w
               = (Inr False, self, printed (ErrorProcessing path TypeError) w)"
    by (simp add: handle_exception_def print_def)
  from 1 2 3 4 5 process_accepted_values show ?thesis by simp
qed

theorem non_string_name_aborts_file_witness:
  "contents example_world ''models/bad.yml'' = Inr ''bad''
   \<and> safe_load example_lib ''bad'' = Loaded bad_schema
   \<and> refuses example_world (ErrorProcessing ''models/bad.yml'' TypeError) = None
   \<and> py_in ''.'' (YInt 5) = Inl TypeError
   \<and> is_generic_test (YInt 5) = Inl TypeError
   \<and> process_test_list [accepted_values_decl]
        = Inr ([accepted_values_migrated], [YStr ''accepted_values''])
   \<and> process_test_list [accepted_values_decl, int_named_decl] = Inl TypeError
   \<and> process_yaml_content bad_schema = Inl TypeError
   \<and> migrate_file example_lib (example_migrator False) example_world ''models/bad.yml''
        = (Inr False, example_migrator False,
           printed (ErrorProcessing ''models/bad.yml'' TypeError) example_world)
   \<and> contents (snd (snd (migrate_file example_lib (example_migrator False) example_world
                             ''models/bad.yml''))) = contents example_world"
proof -
  have r: "refuses example_world (ErrorProcessing ''models/bad.yml'' TypeError) = None"
    by (simp add: example_world_def)
  from non_string_name_aborts_file [OF ex_bad(1) load_examples(2),
      where a = "SInt 5" and self = "example_migrator False"] ex_bad(1) load_examples(2) r
  show ?thesis by (simp add: handle_exception_def print_def)
qed

end
